theory Spec2Isabelle
  imports Complex_Main "HOL-Library.AList" "HOL-Library.Multiset"
begin

section \<open>Data model of \<open>src/main.js\<close>\<close>

text \<open>
  A JavaScript number is modelled as a real number: every finite double is one, and the
  arithmetic of the source (\<open>+\<close>, \<open>-\<close>, \<open>*\<close>, \<open>/\<close>) is taken exactly, without the
  rounding of each result to the nearest double. Identifiers and skus are strings, the
  shape they take as property keys of the two lookup objects.
\<close>

type_synonym number = real

text \<open>An element of \<open>data.sellers\<close>; \<open>s_id\<close> is the field \<open>id\<close>.\<close>

record seller =
  s_id :: string
  first_name :: string
  last_name :: string

text \<open>An element of \<open>data.products\<close>; \<open>p_sku\<close> is the field \<open>sku\<close>.\<close>

record product =
  p_sku :: string
  purchase_price :: number

text \<open>An element of \<open>record.items\<close>.\<close>

record line_item =
  sku :: string
  sale_price :: number
  quantity :: number
  discount :: number

text \<open>An element of \<open>data.purchase_records\<close>.\<close>

record purchase_record =
  seller_id :: string
  total_amount :: number
  items :: "line_item list"

text \<open>
  An element of \<open>sellerStats\<close> as step 3 creates it (\<open>stat_id\<close> and \<open>stat_name\<close> are its
  fields \<open>id\<close> and \<open>name\<close>). The object \<open>products_sold\<close> is the list of its own
  properties in the order of their creation.
\<close>

record seller_stat =
  stat_id :: string
  stat_name :: string
  revenue :: number
  profit :: number
  sales_count :: nat
  products_sold :: "(string \<times> number) list"

text \<open>
  The same object once the ranking step has added \<open>bonus\<close> and \<open>top_products\<close>; an
  element \<open>{sku, quantity}\<close> of \<open>top_products\<close> is a pair.
\<close>

record ranked_stat = seller_stat +
  bonus :: number
  top_products :: "(string \<times> number) list"

text \<open>An element of the returned array.\<close>

record report =
  r_seller_id :: string
  r_name :: string
  r_revenue :: number
  r_profit :: number
  r_sales_count :: nat
  r_top_products :: "(string \<times> number) list"
  r_bonus :: number

section \<open>The two default strategies\<close>

definition calculateSimpleRevenue :: "line_item \<Rightarrow> product \<Rightarrow> number" where
  "calculateSimpleRevenue purchase product_unused =
     (let discountCoef = 1 - (discount purchase / 100)
      in sale_price purchase * quantity purchase * discountCoef)"

definition calculateBonusByProfit :: "int \<Rightarrow> int \<Rightarrow> seller_stat \<Rightarrow> number" where
  "calculateBonusByProfit index total' seller =
     (if index = 0 then profit seller * 0.15
      else if index = 1 \<or> index = 2 then profit seller * 0.10
      else if index = total' - 1 then 0
      else profit seller * 0.05)"

section \<open>Outcomes of a call\<close>

text \<open>
  The three \<open>throw new Error(...)\<close> of the validation, in the order of the source, and
  the \<open>TypeError\<close> the engine raises when a property of \<open>undefined\<close> is read.
\<close>

datatype error = InvalidData | InvalidOptions | MissingFunctions | TypeError

text \<open>
  A call either throws, or returns its value, or leaves the model: \<open>NonNumeric\<close> marks the
  point where the source goes on with a total that is \<open>NaN\<close> or with a quantity that is a
  string. No real number stands for either, so the model stops there and says nothing
  about what the call does next; it is no exception of the source.
\<close>

datatype 'a outcome = Throws error | NonNumeric | Returns 'a

text \<open>\<open>array.forEach\<close> with a callback that updates a state and may fail.\<close>

fun forEach :: "('s \<Rightarrow> 'a \<Rightarrow> 's outcome) \<Rightarrow> 's \<Rightarrow> 'a list \<Rightarrow> 's outcome" where
  "forEach f s [] = Returns s"
| "forEach f s (x # xs) =
     (case f s x of
        Returns s' \<Rightarrow> forEach f s' xs
      | Throws e \<Rightarrow> Throws e
      | NonNumeric \<Rightarrow> NonNumeric)"

section \<open>Plain objects as lookup tables\<close>

text \<open>
  \<open>sellerIndex\<close>, \<open>productIndex\<close> and \<open>products_sold\<close> are plain objects, so a read
  \<open>obj[key]\<close> that finds no own property goes on to \<open>Object.prototype\<close>. These are the
  property names of \<open>Object.prototype\<close>; each of them holds a truthy value.
\<close>

definition Object_prototype_keys :: "string list" where
  "Object_prototype_keys =
     [''constructor'', ''__defineGetter__'', ''__defineSetter__'', ''hasOwnProperty'',
      ''__lookupGetter__'', ''__lookupSetter__'', ''isPrototypeOf'',
      ''propertyIsEnumerable'', ''toString'', ''valueOf'', ''__proto__'',
      ''toLocaleString'']"

datatype 'a property = Own 'a | Inherited | Undefined

text \<open>\<open>Object.fromEntries\<close>: a later entry replaces an earlier one with the same key.\<close>

definition fromEntries :: "(string \<times> 'a) list \<Rightarrow> (string \<rightharpoonup> 'a)" where
  "fromEntries entries = fold (\<lambda>(k, v) obj. obj(k \<mapsto> v)) entries Map.empty"

text \<open>The read \<open>obj[key]\<close>.\<close>

definition get_property :: "(string \<rightharpoonup> 'a) \<Rightarrow> string \<Rightarrow> 'a property" where
  "get_property obj key =
     (case obj key of
        Some v \<Rightarrow> Own v
      | None \<Rightarrow> if key \<in> set Object_prototype_keys then Inherited else Undefined)"

text \<open>
  \<open>Object.entries\<close> lists the own properties whose key is an array index (the decimal
  numeral, without leading zeros, of an integer below \<open>2^32 - 1\<close>) first, in ascending
  numeric order, and the other keys after them in the order of their creation.
\<close>

definition digit_value :: "char \<Rightarrow> nat option" where
  "digit_value c =
     map_of [(CHR ''0'', 0), (CHR ''1'', 1), (CHR ''2'', 2), (CHR ''3'', 3), (CHR ''4'', 4),
             (CHR ''5'', 5), (CHR ''6'', 6), (CHR ''7'', 7), (CHR ''8'', 8), (CHR ''9'', 9)] c"

definition decimal_value :: "nat list \<Rightarrow> nat" where
  "decimal_value ds = foldl (\<lambda>n d. n * 10 + d) 0 ds"

definition array_index :: "string \<Rightarrow> nat option" where
  "array_index key =
     (case those (map digit_value key) of
        None \<Rightarrow> None
      | Some [] \<Rightarrow> None
      | Some (d # ds) \<Rightarrow>
          if (d \<noteq> 0 \<or> ds = []) \<and> decimal_value (d # ds) < 2 ^ 32 - 1
          then Some (decimal_value (d # ds)) else None)"

definition is_array_index :: "string \<Rightarrow> bool" where
  "is_array_index key = (array_index key \<noteq> None)"

definition index_of :: "string \<Rightarrow> nat" where
  "index_of key = (case array_index key of Some n \<Rightarrow> n | None \<Rightarrow> 0)"

definition Object_entries :: "(string \<times> 'a) list \<Rightarrow> (string \<times> 'a) list" where
  "Object_entries obj =
     sort_key (\<lambda>e. index_of (fst e)) (filter (\<lambda>e. is_array_index (fst e)) obj)
     @ filter (\<lambda>e. \<not> is_array_index (fst e)) obj"

section \<open>Built-in array and number methods\<close>

text \<open>
  \<open>Array.prototype.sort\<close> with a comparator. The standard fixes the result, not the
  algorithm: the elements in an order the comparator agrees with, equal elements in
  their former order. Insertion from the right computes it.
\<close>

fun sort_insert :: "('a \<Rightarrow> 'a \<Rightarrow> number) \<Rightarrow> 'a \<Rightarrow> 'a list \<Rightarrow> 'a list" where
  "sort_insert cmp x [] = [x]"
| "sort_insert cmp x (y # ys) =
     (if cmp x y \<le> 0 then x # y # ys else y # sort_insert cmp x ys)"

definition js_sort :: "('a \<Rightarrow> 'a \<Rightarrow> number) \<Rightarrow> 'a list \<Rightarrow> 'a list" where
  "js_sort cmp xs = foldr (sort_insert cmp) xs []"

text \<open>
  \<open>+x.toFixed(f)\<close>. \<open>toFixed\<close> takes the integer \<open>n\<close> for which \<open>n / 10^f\<close> is closest to
  \<open>x\<close>, the larger one of two, after moving the sign of a negative \<open>x\<close> out; the unary
  plus reads the digits back. (From \<open>10^21\<close> on \<open>toFixed\<close> prints \<open>x\<close> itself, which is
  an integer for every double that large, so the value is the same.)
\<close>

definition toFixed :: "nat \<Rightarrow> number \<Rightarrow> number" where
  "toFixed f x =
     (if x < 0 then - (of_int \<lfloor>(- x) * 10 ^ f + 1 / 2\<rfloor> / 10 ^ f)
      else of_int \<lfloor>x * 10 ^ f + 1 / 2\<rfloor> / 10 ^ f)"

section \<open>\<open>analyzeSalesData\<close>\<close>

subsection \<open>The arguments as the validation sees them\<close>

text \<open>A field of \<open>data\<close> under \<open>Array.isArray\<close>.\<close>

datatype 'a js_array = NotArray | Array "'a list"

text \<open>\<open>data\<close> is \<open>None\<close> when it is falsy.\<close>

record dataset =
  sellers :: "seller js_array"
  products :: "product js_array"
  purchase_records :: "purchase_record js_array"

text \<open>A field of \<open>options\<close>: falsy, truthy without being a function, or a function.\<close>

datatype 'f js_function = Falsy | NotFunction | Callable 'f

type_synonym revenue_strategy = "line_item \<Rightarrow> product \<Rightarrow> number"
type_synonym bonus_strategy = "int \<Rightarrow> int \<Rightarrow> seller_stat \<Rightarrow> number"

text \<open>\<open>options\<close>: falsy, truthy with a \<open>typeof\<close> other than \<open>"object"\<close>, or an object.\<close>

datatype options_arg =
    OptionsFalsy
  | OptionsNotObject
  | Options (calculateRevenue: "revenue_strategy js_function")
            (calculateBonus: "bonus_strategy js_function")

subsection \<open>Steps 3 and 4: \<open>sellerStats\<close> and the two indexes\<close>

definition init_stat :: "seller \<Rightarrow> seller_stat" where
  "init_stat seller =
     \<lparr>stat_id = s_id seller,
      stat_name = first_name seller @ '' '' @ last_name seller,
      revenue = 0, profit = 0, sales_count = 0, products_sold = []\<rparr>"

text \<open>
  \<open>sellerIndex\<close> holds references to the elements of \<open>sellerStats\<close>; a reference is the
  position of the element in the array.
\<close>

definition sellerIndex :: "seller_stat list \<Rightarrow> (string \<rightharpoonup> nat)" where
  "sellerIndex sellerStats =
     fromEntries (zip (map stat_id sellerStats) [0..<length sellerStats])"

definition productIndex :: "product list \<Rightarrow> (string \<rightharpoonup> product)" where
  "productIndex ps = fromEntries (map (\<lambda>p. (p_sku p, p)) ps)"

subsection \<open>The double loop\<close>

text \<open>
  The two statements on \<open>seller.products_sold[item.sku]\<close>, for a key that is no property
  name of \<open>Object.prototype\<close>: the entry is set to 0 when it is absent or 0, then the
  quantity is added.
\<close>

definition count_sold :: "string \<Rightarrow> number \<Rightarrow> (string \<times> number) list \<Rightarrow> (string \<times> number) list" where
  "count_sold key q sold =
     (let sold1 = (if (case map_of sold key of None \<Rightarrow> True | Some v \<Rightarrow> v = 0)
                   then AList.update key 0 sold else sold)
      in AList.map_entry key (\<lambda>v. v + q) sold1)"

text \<open>
  The inner callback for a seller found in \<open>sellerStats\<close>. A sku that names a property
  of \<open>Object.prototype\<close> is never skipped: \<open>productIndex[item.sku]\<close> is truthy, the cost
  is \<open>NaN\<close> unless a product has that sku, and \<open>products_sold[item.sku]\<close> reads the
  inherited value, to which \<open>+=\<close> appends the quantity as text (for \<open>__proto__\<close> the
  assignment is dropped and the quantity is lost). The model leaves all of these cases
  through \<open>NonNumeric\<close>.
\<close>

definition process_item ::
  "revenue_strategy \<Rightarrow> (string \<rightharpoonup> product) \<Rightarrow> seller_stat \<Rightarrow> line_item \<Rightarrow> seller_stat outcome" where
  "process_item calcRevenue pIndex seller item =
     (case get_property pIndex (sku item) of
        Undefined \<Rightarrow> Returns seller
      | Inherited \<Rightarrow> NonNumeric
      | Own product \<Rightarrow>
          if sku item \<in> set Object_prototype_keys then NonNumeric
          else
            let cost = purchase_price product * quantity item;
                revenue' = calcRevenue item product;
                profit' = revenue' - cost;
                seller1 = seller\<lparr>profit := profit seller + profit'\<rparr>
            in Returns (seller1\<lparr>products_sold :=
                          count_sold (sku item) (quantity item) (products_sold seller1)\<rparr>))"

text \<open>
  The inner callback when \<open>sellerIndex[record.seller_id]\<close> is a built-in of
  \<open>Object.prototype\<close>: it has no \<open>products_sold\<close>, so the first item that is not skipped
  raises at \<open>seller.products_sold[item.sku]\<close>.
\<close>

definition process_item_builtin :: "(string \<rightharpoonup> product) \<Rightarrow> unit \<Rightarrow> line_item \<Rightarrow> unit outcome" where
  "process_item_builtin pIndex u item =
     (case get_property pIndex (sku item) of
        Undefined \<Rightarrow> Returns u
      | Inherited \<Rightarrow> Throws TypeError
      | Own product \<Rightarrow> Throws TypeError)"

text \<open>
  The outer callback. The counters of a built-in reached through the prototype are
  properties of that built-in and of no element of \<open>sellerStats\<close>.
\<close>

definition process_record ::
  "revenue_strategy \<Rightarrow> (string \<rightharpoonup> nat) \<Rightarrow> (string \<rightharpoonup> product) \<Rightarrow>
     seller_stat list \<Rightarrow> purchase_record \<Rightarrow> seller_stat list outcome" where
  "process_record calcRevenue sIndex pIndex sellerStats record =
     (case get_property sIndex (seller_id record) of
        Undefined \<Rightarrow> Returns sellerStats
      | Inherited \<Rightarrow>
          (case forEach (process_item_builtin pIndex) () (items record) of
             Returns u \<Rightarrow> Returns sellerStats
           | Throws e \<Rightarrow> Throws e
           | NonNumeric \<Rightarrow> NonNumeric)
      | Own i \<Rightarrow>
          let seller = sellerStats ! i;
              seller1 = seller\<lparr>sales_count := sales_count seller + 1\<rparr>;
              seller2 = seller1\<lparr>revenue := revenue seller1 + total_amount record\<rparr>
          in (case forEach (process_item calcRevenue pIndex) seller2 (items record) of
                Returns seller3 \<Rightarrow> Returns (sellerStats[i := seller3])
              | Throws e \<Rightarrow> Throws e
              | NonNumeric \<Rightarrow> NonNumeric))"

text \<open>\<open>sellerStats\<close> after the double loop.\<close>

definition aggregate ::
  "revenue_strategy \<Rightarrow> seller list \<Rightarrow> product list \<Rightarrow> purchase_record list \<Rightarrow>
     seller_stat list outcome" where
  "aggregate calcRevenue ss ps rs =
     (let sellerStats = map init_stat ss
      in forEach (process_record calcRevenue (sellerIndex sellerStats) (productIndex ps))
           sellerStats rs)"

subsection \<open>Ranking, bonuses, top products and the result\<close>

definition by_profit :: "seller_stat \<Rightarrow> seller_stat \<Rightarrow> number" where
  "by_profit a b = profit b - profit a"

definition by_quantity :: "string \<times> number \<Rightarrow> string \<times> number \<Rightarrow> number" where
  "by_quantity a b = snd b - snd a"

definition top_products_of :: "(string \<times> number) list \<Rightarrow> (string \<times> number) list" where
  "top_products_of sold = take 10 (js_sort by_quantity (Object_entries sold))"

definition assign :: "bonus_strategy \<Rightarrow> nat \<Rightarrow> nat \<times> seller_stat \<Rightarrow> ranked_stat" where
  "assign calcBonus n = (\<lambda>(index, seller).
     \<lparr>stat_id = stat_id seller, stat_name = stat_name seller, revenue = revenue seller,
      profit = profit seller, sales_count = sales_count seller,
      products_sold = products_sold seller,
      bonus = calcBonus (int index) (int n) seller,
      top_products = top_products_of (products_sold seller)\<rparr>)"

definition rank :: "bonus_strategy \<Rightarrow> seller_stat list \<Rightarrow> ranked_stat list" where
  "rank calcBonus sellerStats =
     map (assign calcBonus (length sellerStats)) (enumerate 0 sellerStats)"

definition report_of :: "ranked_stat \<Rightarrow> report" where
  "report_of seller =
     \<lparr>r_seller_id = stat_id seller,
      r_name = stat_name seller,
      r_revenue = toFixed 2 (revenue seller),
      r_profit = toFixed 2 (profit seller),
      r_sales_count = sales_count seller,
      r_top_products = top_products seller,
      r_bonus = toFixed 2 (bonus seller)\<rparr>"

text \<open>The call after the validation.\<close>

definition analyze ::
  "revenue_strategy \<Rightarrow> bonus_strategy \<Rightarrow> seller list \<Rightarrow> product list \<Rightarrow>
     purchase_record list \<Rightarrow> report list outcome" where
  "analyze calcRevenue calcBonus ss ps rs =
     (case aggregate calcRevenue ss ps rs of
        Returns sellerStats \<Rightarrow>
          Returns (map report_of (rank calcBonus (js_sort by_profit sellerStats)))
      | Throws e \<Rightarrow> Throws e
      | NonNumeric \<Rightarrow> NonNumeric)"

definition analyzeSalesData :: "dataset option \<Rightarrow> options_arg \<Rightarrow> report list outcome" where
  "analyzeSalesData data options =
     (case data of
        None \<Rightarrow> Throws InvalidData
      | Some d \<Rightarrow>
          (case (sellers d, products d, purchase_records d) of
             (Array ss, Array ps, Array rs) \<Rightarrow>
               if ss = [] \<or> ps = [] \<or> rs = [] then Throws InvalidData
               else
                 (case options of
                    OptionsFalsy \<Rightarrow> Throws InvalidOptions
                  | OptionsNotObject \<Rightarrow> Throws InvalidOptions
                  | Options cr cb \<Rightarrow>
                      (case (cr, cb) of
                         (Callable calcRevenue, Callable calcBonus) \<Rightarrow>
                           analyze calcRevenue calcBonus ss ps rs
                       | _ \<Rightarrow> Throws MissingFunctions))
           | _ \<Rightarrow> Throws InvalidData))"

section \<open>What the double loop adds up\<close>

text \<open>
  The definitions of this section state, without the loop and without the two indexes,
  what the specification says the aggregation computes; the lemmas below relate them to
  \<open>aggregate\<close>.
\<close>

text \<open>
  The key resolves to the seller at position \<open>i\<close>: that seller has the id and no later
  seller has it.
\<close>

definition resolves :: "seller list \<Rightarrow> string \<Rightarrow> nat \<Rightarrow> bool" where
  "resolves ss key i =
     (i < length ss \<and> s_id (ss ! i) = key \<and> key \<notin> set (map s_id (drop (Suc i) ss)))"

text \<open>The product a sku resolves to: the last product of the input that has it.\<close>

definition product_of :: "product list \<Rightarrow> string \<Rightarrow> product option" where
  "product_of ps key = find (\<lambda>p. p_sku p = key) (rev ps)"

text \<open>The purchase records attributed to the seller at position \<open>i\<close>.\<close>

definition attributed :: "seller list \<Rightarrow> nat \<Rightarrow> purchase_record list \<Rightarrow> purchase_record list" where
  "attributed ss i rs = filter (\<lambda>r. resolves ss (seller_id r) i) rs"

text \<open>
  The profit of a line item: the strategy's revenue less the cost when the sku resolves
  to a product, nothing otherwise.
\<close>

definition item_profit :: "revenue_strategy \<Rightarrow> (string \<rightharpoonup> product) \<Rightarrow> line_item \<Rightarrow> number" where
  "item_profit calcRevenue pIndex item =
     (case pIndex (sku item) of
        None \<Rightarrow> 0
      | Some product \<Rightarrow> calcRevenue item product - purchase_price product * quantity item)"

text \<open>The products sold after a line item: unchanged when the sku resolves to no product.\<close>

definition item_sold :: "(string \<rightharpoonup> product) \<Rightarrow> line_item \<Rightarrow> (string \<times> number) list \<Rightarrow> (string \<times> number) list" where
  "item_sold pIndex item sold =
     (case pIndex (sku item) of
        None \<Rightarrow> sold
      | Some product \<Rightarrow> count_sold (sku item) (quantity item) sold)"

text \<open>What one attributed record adds to the statistics of its seller.\<close>

definition record_effect ::
  "revenue_strategy \<Rightarrow> (string \<rightharpoonup> product) \<Rightarrow> purchase_record \<Rightarrow> seller_stat \<Rightarrow> seller_stat" where
  "record_effect calcRevenue pIndex r s =
     s\<lparr>sales_count := sales_count s + 1,
       revenue := revenue s + total_amount r,
       profit := profit s + sum_list (map (item_profit calcRevenue pIndex) (items r)),
       products_sold := fold (item_sold pIndex) (items r) (products_sold s)\<rparr>"

text \<open>What one record adds to \<open>sellerStats\<close>, given the two lookups as maps.\<close>

definition credit ::
  "revenue_strategy \<Rightarrow> (string \<rightharpoonup> nat) \<Rightarrow> (string \<rightharpoonup> product) \<Rightarrow> purchase_record \<Rightarrow>
     seller_stat list \<Rightarrow> seller_stat list" where
  "credit calcRevenue sIndex pIndex r stats =
     (case sIndex (seller_id r) of
        None \<Rightarrow> stats
      | Some i \<Rightarrow> stats[i := record_effect calcRevenue pIndex r (stats ! i)])"

text \<open>
  No \<open>seller_id\<close> of a record and no \<open>sku\<close> of a line item names a property of
  \<open>Object.prototype\<close>.
\<close>

definition plain_keys :: "purchase_record list \<Rightarrow> bool" where
  "plain_keys rs =
     list_all (\<lambda>r. seller_id r \<notin> set Object_prototype_keys
                 \<and> list_all (\<lambda>item. sku item \<notin> set Object_prototype_keys) (items r)) rs"

text \<open>A call whose arguments pass the three checks on their shape.\<close>

abbreviation call ::
  "revenue_strategy \<Rightarrow> bonus_strategy \<Rightarrow> seller list \<Rightarrow> product list \<Rightarrow>
     purchase_record list \<Rightarrow> report list outcome" where
  "call calcRevenue calcBonus ss ps rs \<equiv>
     analyzeSalesData
       (Some \<lparr>sellers = Array ss, products = Array ps, purchase_records = Array rs\<rparr>)
       (Options (Callable calcRevenue) (Callable calcBonus))"

section \<open>The conditions of the validation, as the specification words them\<close>

text \<open>
  The dataset is rejected when it is absent or one of its three collections is not an
  array or is empty; the options when they are absent or not an object; the strategies
  when one of them is missing or not callable.
\<close>

fun nonempty_array :: "'a js_array \<Rightarrow> bool" where
  "nonempty_array NotArray = False"
| "nonempty_array (Array xs) = (xs \<noteq> [])"

definition invalid_data :: "dataset option \<Rightarrow> bool" where
  "invalid_data data =
     (case data of
        None \<Rightarrow> True
      | Some d \<Rightarrow> \<not> nonempty_array (sellers d) \<or> \<not> nonempty_array (products d)
                  \<or> \<not> nonempty_array (purchase_records d))"

fun invalid_options :: "options_arg \<Rightarrow> bool" where
  "invalid_options OptionsFalsy = True"
| "invalid_options OptionsNotObject = True"
| "invalid_options (Options cr cb) = False"

fun callable :: "'f js_function \<Rightarrow> bool" where
  "callable (Callable f) = True"
| "callable Falsy = False"
| "callable NotFunction = False"

fun missing_strategy :: "options_arg \<Rightarrow> bool" where
  "missing_strategy (Options cr cb) = (\<not> callable cr \<or> \<not> callable cb)"
| "missing_strategy OptionsFalsy = False"
| "missing_strategy OptionsNotObject = False"

section \<open>The products sold, as the specification words them\<close>

text \<open>
  The skus of a list in the order in which they are first met; the line items whose sku
  resolves to a product; the cumulative quantity of a sku; the pairs \<open>{sku, quantity}\<close>
  in first-encounter order; and the top products the specification asks for: these
  pairs sorted by descending quantity, ties in first-encounter order, cut to ten.
\<close>

fun first_seen :: "'a list \<Rightarrow> 'a list" where
  "first_seen [] = []"
| "first_seen (x # xs) = x # filter (\<lambda>y. y \<noteq> x) (first_seen xs)"

definition resolved_items :: "(string \<rightharpoonup> product) \<Rightarrow> line_item list \<Rightarrow> line_item list" where
  "resolved_items pIndex its = filter (\<lambda>item. pIndex (sku item) \<noteq> None) its"

definition sold_quantity :: "(string \<rightharpoonup> product) \<Rightarrow> line_item list \<Rightarrow> string \<Rightarrow> number" where
  "sold_quantity pIndex its key =
     sum_list (map quantity (filter (\<lambda>item. sku item = key) (resolved_items pIndex its)))"

definition sold_pairs :: "(string \<rightharpoonup> product) \<Rightarrow> line_item list \<Rightarrow> (string \<times> number) list" where
  "sold_pairs pIndex its =
     map (\<lambda>key. (key, sold_quantity pIndex its key))
       (first_seen (map sku (resolved_items pIndex its)))"

definition claimed_top_products :: "(string \<rightharpoonup> product) \<Rightarrow> line_item list \<Rightarrow> (string \<times> number) list" where
  "claimed_top_products pIndex its = take 10 (sort_key (\<lambda>e. - snd e) (sold_pairs pIndex its))"

section \<open>A small data set\<close>

definition ex_sellers :: "seller list" where
  "ex_sellers =
     [\<lparr>s_id = ''s1'', first_name = ''Ann'', last_name = ''Lee''\<rparr>,
      \<lparr>s_id = ''s2'', first_name = ''Bob'', last_name = ''Ray''\<rparr>]"

definition ex_products :: "product list" where
  "ex_products = [\<lparr>p_sku = ''a'', purchase_price = 10\<rparr>, \<lparr>p_sku = ''b'', purchase_price = 20\<rparr>]"

definition ex_records :: "purchase_record list" where
  "ex_records =
     [\<lparr>seller_id = ''s1'', total_amount = 100,
       items = [\<lparr>sku = ''a'', sale_price = 15, quantity = 2, discount = 10\<rparr>,
                \<lparr>sku = ''zz'', sale_price = 5, quantity = 1, discount = 0\<rparr>]\<rparr>,
      \<lparr>seller_id = ''s2'', total_amount = 100 / 3,
       items = [\<lparr>sku = ''b'', sale_price = 30, quantity = 1, discount = 0\<rparr>]\<rparr>,
      \<lparr>seller_id = ''s9'', total_amount = 50,
       items = [\<lparr>sku = ''a'', sale_price = 15, quantity = 1, discount = 0\<rparr>]\<rparr>]"

definition ex_data :: "dataset option" where
  "ex_data = Some \<lparr>sellers = Array ex_sellers, products = Array ex_products,
                   purchase_records = Array ex_records\<rparr>"

definition ex_options :: options_arg where
  "ex_options = Options (Callable calculateSimpleRevenue) (Callable calculateBonusByProfit)"

definition ex_stats :: "seller_stat list" where
  "ex_stats =
     [\<lparr>stat_id = ''s1'', stat_name = ''Ann Lee'', revenue = 100, profit = 7,
       sales_count = 1, products_sold = [(''a'', 2)]\<rparr>,
      \<lparr>stat_id = ''s2'', stat_name = ''Bob Ray'', revenue = 100 / 3, profit = 10,
       sales_count = 1, products_sold = [(''b'', 1)]\<rparr>]"

definition ex_reports :: "report list" where
  "ex_reports =
     [\<lparr>r_seller_id = ''s2'', r_name = ''Bob Ray'', r_revenue = 3333 / 100, r_profit = 10,
       r_sales_count = 1, r_top_products = [(''b'', 1)], r_bonus = 3 / 2\<rparr>,
      \<lparr>r_seller_id = ''s1'', r_name = ''Ann Lee'', r_revenue = 100, r_profit = 7,
       r_sales_count = 1, r_top_products = [(''a'', 2)], r_bonus = 7 / 10\<rparr>]"

text \<open>Two other strategies, under which the two sellers have the same profit.\<close>

definition no_revenue :: revenue_strategy where
  "no_revenue item product = 0"

definition no_bonus :: bonus_strategy where
  "no_bonus index total' seller = 0"

definition tie_stats :: "seller_stat list" where
  "tie_stats =
     [\<lparr>stat_id = ''s1'', stat_name = ''Ann Lee'', revenue = 100, profit = - 20,
       sales_count = 1, products_sold = [(''a'', 2)]\<rparr>,
      \<lparr>stat_id = ''s2'', stat_name = ''Bob Ray'', revenue = 100 / 3, profit = - 20,
       sales_count = 1, products_sold = [(''b'', 1)]\<rparr>]"

definition tie_reports :: "report list" where
  "tie_reports =
     [\<lparr>r_seller_id = ''s1'', r_name = ''Ann Lee'', r_revenue = 100, r_profit = - 20,
       r_sales_count = 1, r_top_products = [(''a'', 2)], r_bonus = 0\<rparr>,
      \<lparr>r_seller_id = ''s2'', r_name = ''Bob Ray'', r_revenue = 3333 / 100, r_profit = - 20,
       r_sales_count = 1, r_top_products = [(''b'', 1)], r_bonus = 0\<rparr>]"

text \<open>Two sellers with one id, two products with one sku.\<close>

definition dup_sellers :: "seller list" where
  "dup_sellers =
     [\<lparr>s_id = ''s1'', first_name = ''Ann'', last_name = ''Lee''\<rparr>,
      \<lparr>s_id = ''s1'', first_name = ''Amy'', last_name = ''Lee''\<rparr>]"

definition dup_products :: "product list" where
  "dup_products = [\<lparr>p_sku = ''a'', purchase_price = 10\<rparr>, \<lparr>p_sku = ''a'', purchase_price = 12\<rparr>]"

definition dup_records :: "purchase_record list" where
  "dup_records =
     [\<lparr>seller_id = ''s1'', total_amount = 100,
       items = [\<lparr>sku = ''a'', sale_price = 15, quantity = 2, discount = 0\<rparr>]\<rparr>]"

definition dup_stats :: "seller_stat list" where
  "dup_stats =
     [\<lparr>stat_id = ''s1'', stat_name = ''Ann Lee'', revenue = 0, profit = 0,
       sales_count = 0, products_sold = []\<rparr>,
      \<lparr>stat_id = ''s1'', stat_name = ''Amy Lee'', revenue = 100, profit = 6,
       sales_count = 1, products_sold = [(''a'', 2)]\<rparr>]"

definition dup_reports :: "report list" where
  "dup_reports =
     [\<lparr>r_seller_id = ''s1'', r_name = ''Amy Lee'', r_revenue = 100, r_profit = 6,
       r_sales_count = 1, r_top_products = [(''a'', 2)], r_bonus = 9 / 10\<rparr>,
      \<lparr>r_seller_id = ''s1'', r_name = ''Ann Lee'', r_revenue = 0, r_profit = 0,
       r_sales_count = 0, r_top_products = [], r_bonus = 0\<rparr>]"

text \<open>Two skus that are array indexes, sold in the order 2, 1; and twelve skus in
  strictly decreasing quantity.\<close>

definition idx_sellers :: "seller list" where
  "idx_sellers = [\<lparr>s_id = ''s1'', first_name = ''Ann'', last_name = ''Lee''\<rparr>]"

definition idx_products :: "product list" where
  "idx_products = [\<lparr>p_sku = ''2'', purchase_price = 10\<rparr>, \<lparr>p_sku = ''1'', purchase_price = 20\<rparr>]"

definition idx_records :: "purchase_record list" where
  "idx_records =
     [\<lparr>seller_id = ''s1'', total_amount = 100,
       items = [\<lparr>sku = ''2'', sale_price = 15, quantity = 1, discount = 0\<rparr>,
                \<lparr>sku = ''1'', sale_price = 25, quantity = 1, discount = 0\<rparr>]\<rparr>]"

definition idx_stats :: "seller_stat list" where
  "idx_stats =
     [\<lparr>stat_id = ''s1'', stat_name = ''Ann Lee'', revenue = 100, profit = 10,
       sales_count = 1, products_sold = [(''2'', 1), (''1'', 1)]\<rparr>]"

definition idx_reports :: "report list" where
  "idx_reports =
     [\<lparr>r_seller_id = ''s1'', r_name = ''Ann Lee'', r_revenue = 100, r_profit = 10,
       r_sales_count = 1, r_top_products = [(''1'', 1), (''2'', 1)], r_bonus = 3 / 2\<rparr>]"

definition twelve_sold :: "(string \<times> number) list" where
  "twelve_sold =
     [(''p01'', 12), (''p02'', 11), (''p03'', 10), (''p04'', 9), (''p05'', 8), (''p06'', 7),
      (''p07'', 6), (''p08'', 5), (''p09'', 4), (''p10'', 3), (''p11'', 2), (''p12'', 1)]"

text \<open>A seller id and a sku that name properties of \<open>Object.prototype\<close>.\<close>

definition builtin_records :: "purchase_record list" where
  "builtin_records =
     [\<lparr>seller_id = ''constructor'', total_amount = 50,
       items = [\<lparr>sku = ''a'', sale_price = 15, quantity = 1, discount = 0\<rparr>]\<rparr>]"

definition builtin_sku_records :: "purchase_record list" where
  "builtin_sku_records =
     [\<lparr>seller_id = ''s1'', total_amount = 50,
       items = [\<lparr>sku = ''toString'', sale_price = 15, quantity = 1, discount = 0\<rparr>]\<rparr>]"

section \<open>Loops and lookup tables\<close>

lemma forEach_Returns_Cons:
  "forEach f s (x # xs) = Returns s' \<longleftrightarrow> (\<exists>s1. f s x = Returns s1 \<and> forEach f s1 xs = Returns s')"
  by (cases "f s x") simp_all

lemma fold_upd_map_of:
  "fold (\<lambda>(k, v) obj. obj(k \<mapsto> v)) es m = m ++ map_of (rev es)"
proof (induction es arbitrary: m)
  case Nil
  then show ?case by simp
next
  case (Cons e es)
  obtain k v where e: "e = (k, v)" by (cases e)
  have "fold (\<lambda>(k, v) obj. obj(k \<mapsto> v)) (e # es) m
      = fold (\<lambda>(k, v) obj. obj(k \<mapsto> v)) es (m(k \<mapsto> v))"
    unfolding e by (simp only: fold_simps comp_apply prod.case)
  also have "\<dots> = m(k \<mapsto> v) ++ map_of (rev es)"
    by (rule Cons.IH)
  also have "\<dots> = m ++ ([k \<mapsto> v] ++ map_of (rev es))"
    by (rule ext) (simp add: map_add_def split: option.splits)
  also have "\<dots> = m ++ map_of (rev (e # es))"
    by (simp add: e)
  finally show ?case .
qed

lemma fromEntries_map_of: "fromEntries es = map_of (rev es)"
  by (simp add: fromEntries_def fold_upd_map_of)

lemma fromEntries_None: "fromEntries es k = None \<longleftrightarrow> k \<notin> fst ` set es"
  by (simp add: fromEntries_map_of map_of_eq_None_iff)

lemma fromEntries_Some_mem: "fromEntries es k = Some v \<Longrightarrow> (k, v) \<in> set es"
  by (auto simp: fromEntries_map_of dest: map_of_SomeD)

lemma fromEntries_append:
  "fromEntries (es @ es') k = (case fromEntries es' k of None \<Rightarrow> fromEntries es k | Some v \<Rightarrow> Some v)"
  by (simp add: fromEntries_map_of map_add_def split: option.splits)

lemma fromEntries_snoc:
  "fromEntries (es @ [(k', v)]) k = (if k = k' then Some v else fromEntries es k)"
  by (simp add: fromEntries_map_of)

lemma fromEntries_last:
  "fromEntries es k = (case filter (\<lambda>e. fst e = k) es of [] \<Rightarrow> None | e # r \<Rightarrow> Some (snd (last (e # r))))"
proof (induction es rule: rev_induct)
  case Nil
  then show ?case by (simp add: fromEntries_def)
next
  case (snoc e es)
  obtain k' v where e: "e = (k', v)" by (cases e)
  show ?case
    using snoc by (auto simp: e fromEntries_snoc split: list.splits)
qed

lemma process_item_Returns:
  assumes "process_item cr pidx s item = Returns s'"
  shows "s' = s\<lparr>profit := profit s + item_profit cr pidx item,
                products_sold := item_sold pidx item (products_sold s)\<rparr>"
  using assms
  by (auto simp: process_item_def get_property_def item_profit_def item_sold_def Let_def
           split: option.splits if_splits)

lemma process_item_plain:
  assumes "sku item \<notin> set Object_prototype_keys"
  shows "process_item cr pidx s item =
           Returns (s\<lparr>profit := profit s + item_profit cr pidx item,
                      products_sold := item_sold pidx item (products_sold s)\<rparr>)"
  using assms
  by (auto simp: process_item_def get_property_def item_profit_def item_sold_def Let_def
           split: option.splits if_splits)

lemma forEach_items_Returns:
  "forEach (process_item cr pidx) s its = Returns s' \<Longrightarrow>
     s' = s\<lparr>profit := profit s + sum_list (map (item_profit cr pidx) its),
            products_sold := fold (item_sold pidx) its (products_sold s)\<rparr>"
proof (induction its arbitrary: s)
  case Nil
  then show ?case by simp
next
  case (Cons item its)
  from Cons.prems obtain s1 where
    s1: "process_item cr pidx s item = Returns s1" and
    rest: "forEach (process_item cr pidx) s1 its = Returns s'"
    unfolding forEach_Returns_Cons by blast
  show ?case
    using Cons.IH [OF rest] process_item_Returns [OF s1] by (simp add: add.assoc)
qed

lemma forEach_items_plain:
  "list_all (\<lambda>item. sku item \<notin> set Object_prototype_keys) its \<Longrightarrow>
     forEach (process_item cr pidx) s its =
       Returns (s\<lparr>profit := profit s + sum_list (map (item_profit cr pidx) its),
                  products_sold := fold (item_sold pidx) its (products_sold s)\<rparr>)"
proof (induction its arbitrary: s)
  case Nil
  then show ?case by simp
next
  case (Cons item its)
  then show ?case by (simp add: process_item_plain add.assoc)
qed

lemma process_item_builtin_Returns:
  "forEach (process_item_builtin pidx) u its = Returns u' \<Longrightarrow> list_all (\<lambda>item. pidx (sku item) = None) its"
proof (induction its arbitrary: u)
  case Nil
  then show ?case by simp
next
  case (Cons item its)
  then show ?case
    by (auto simp: forEach_Returns_Cons process_item_builtin_def get_property_def
             split: option.splits if_splits)
qed

lemma process_record_Returns:
  assumes "process_record cr sidx pidx stats r = Returns stats'"
  shows "stats' = credit cr sidx pidx r stats"
proof (cases "sidx (seller_id r)")
  case None
  with assms show ?thesis
    by (auto simp: process_record_def get_property_def credit_def split: if_splits outcome.splits)
next
  case (Some i)
  let ?s2 = "(stats ! i)\<lparr>sales_count := sales_count (stats ! i) + 1,
                          revenue := revenue (stats ! i) + total_amount r\<rparr>"
  from assms Some obtain s3 where
    s3: "forEach (process_item cr pidx) ?s2 (items r) = Returns s3" and
    eq: "stats' = stats[i := s3]"
    by (auto simp: process_record_def get_property_def Let_def split: outcome.splits)
  from forEach_items_Returns [OF s3] have "s3 = record_effect cr pidx r (stats ! i)"
    by (simp add: record_effect_def)
  with eq Some show ?thesis by (simp add: credit_def)
qed

lemma process_record_plain:
  assumes "seller_id r \<notin> set Object_prototype_keys"
    and "list_all (\<lambda>item. sku item \<notin> set Object_prototype_keys) (items r)"
  shows "process_record cr sidx pidx stats r = Returns (credit cr sidx pidx r stats)"
proof (cases "sidx (seller_id r)")
  case None
  with assms show ?thesis
    by (simp add: process_record_def get_property_def credit_def)
next
  case (Some i)
  with assms show ?thesis
    by (simp add: process_record_def get_property_def credit_def Let_def forEach_items_plain
        record_effect_def)
qed

lemma forEach_records_Returns:
  "forEach (process_record cr sidx pidx) stats rs = Returns stats' \<Longrightarrow>
     stats' = fold (credit cr sidx pidx) rs stats"
proof (induction rs arbitrary: stats)
  case Nil
  then show ?case by simp
next
  case (Cons r rs)
  from Cons.prems obtain s1 where
    s1: "process_record cr sidx pidx stats r = Returns s1" and
    rest: "forEach (process_record cr sidx pidx) s1 rs = Returns stats'"
    unfolding forEach_Returns_Cons by blast
  show ?case
    using Cons.IH [OF rest] process_record_Returns [OF s1] by simp
qed

lemma forEach_records_plain:
  "plain_keys rs \<Longrightarrow>
     forEach (process_record cr sidx pidx) stats rs = Returns (fold (credit cr sidx pidx) rs stats)"
proof (induction rs arbitrary: stats)
  case Nil
  then show ?case by simp
next
  case (Cons r rs)
  then show ?case by (simp add: plain_keys_def process_record_plain)
qed

lemma productIndex_product_of: "productIndex ps = product_of ps"
proof (rule ext)
  fix k
  show "productIndex ps k = product_of ps k"
  proof (induction ps rule: rev_induct)
    case Nil
    then show ?case by (simp add: productIndex_def product_of_def fromEntries_def)
  next
    case (snoc p ps)
    then show ?case
      by (auto simp: productIndex_def product_of_def fromEntries_snoc)
  qed
qed

lemma sellerIndex_snoc:
  "sellerIndex (stats @ [s]) k = (if k = stat_id s then Some (length stats) else sellerIndex stats k)"
  by (simp add: sellerIndex_def fromEntries_snoc)

lemma sellerIndex_resolves:
  "sellerIndex (map init_stat ss) k = Some i \<longleftrightarrow> resolves ss k i"
proof (induction ss rule: rev_induct)
  case Nil
  then show ?case by (simp add: sellerIndex_def fromEntries_def resolves_def)
next
  case (snoc s ss)
  have id: "stat_id (init_stat s) = s_id s" by (simp add: init_stat_def)
  show ?case
  proof (cases "k = s_id s")
    case True
    then show ?thesis
      by (auto simp: sellerIndex_snoc id resolves_def nth_append)
  next
    case False
    have "resolves (ss @ [s]) k i \<longleftrightarrow> resolves ss k i"
      using False by (auto simp: resolves_def nth_append)
    with False snoc show ?thesis
      by (simp add: sellerIndex_snoc id)
  qed
qed

lemma sellerIndex_None:
  "sellerIndex (map init_stat ss) k = None \<longleftrightarrow> k \<notin> s_id ` set ss"
proof -
  have "map fst (zip (map stat_id (map init_stat ss)) [0..<length ss])
      = map stat_id (map init_stat ss)"
    by (rule map_fst_zip) simp
  then have "fst ` set (zip (map stat_id (map init_stat ss)) [0..<length ss])
      = set (map stat_id (map init_stat ss))"
    by (metis set_map)
  also have "\<dots> = s_id ` set ss"
    by (auto simp: init_stat_def)
  finally have "fst ` set (zip (map stat_id (map init_stat ss)) [0..<length ss]) = s_id ` set ss" .
  then show ?thesis
    by (simp add: sellerIndex_def fromEntries_None)
qed

lemma resolves_unique: "resolves ss k i \<Longrightarrow> resolves ss k j \<Longrightarrow> i = j"
  using sellerIndex_resolves [of ss k i] sellerIndex_resolves [of ss k j] by simp

lemma resolves_ex: "k \<in> s_id ` set ss \<Longrightarrow> \<exists>i. resolves ss k i"
  using sellerIndex_None [of ss k] sellerIndex_resolves [of ss k] by (cases "sellerIndex (map init_stat ss) k") auto

lemma resolves_mem: "resolves ss k i \<Longrightarrow> k \<in> s_id ` set ss"
  by (auto simp: resolves_def)

lemma length_fold_credit: "length (fold (credit cr sidx pidx) rs stats) = length stats"
  by (induction rs arbitrary: stats) (auto simp: credit_def split: option.splits)

lemma nth_fold_credit:
  "i < length stats \<Longrightarrow>
     fold (credit cr sidx pidx) rs stats ! i =
       fold (record_effect cr pidx) (filter (\<lambda>r. sidx (seller_id r) = Some i) rs) (stats ! i)"
proof (induction rs arbitrary: stats)
  case Nil
  then show ?case by simp
next
  case (Cons r rs)
  have len: "i < length (credit cr sidx pidx r stats)"
    using Cons.prems by (simp add: credit_def split: option.splits)
  have "credit cr sidx pidx r stats ! i =
          (if sidx (seller_id r) = Some i then record_effect cr pidx r (stats ! i) else stats ! i)"
    using Cons.prems by (auto simp: credit_def nth_list_update split: option.splits)
  with Cons.IH [OF len] show ?case by simp
qed

lemma aggregate_Returns:
  assumes "aggregate cr ss ps rs = Returns stats"
  shows "length stats = length ss"
    and "i < length ss \<Longrightarrow>
           stats ! i = fold (record_effect cr (product_of ps)) (attributed ss i rs) (init_stat (ss ! i))"
proof -
  have eq: "stats = fold (credit cr (sellerIndex (map init_stat ss)) (product_of ps)) rs (map init_stat ss)"
    using assms forEach_records_Returns
    by (simp add: aggregate_def Let_def productIndex_product_of)
  show "length stats = length ss"
    by (simp add: eq length_fold_credit)
  show "stats ! i = fold (record_effect cr (product_of ps)) (attributed ss i rs) (init_stat (ss ! i))"
    if "i < length ss"
    using that by (simp add: eq nth_fold_credit sellerIndex_resolves attributed_def)
qed

lemma aggregate_plain:
  "plain_keys rs \<Longrightarrow> \<exists>stats. aggregate cr ss ps rs = Returns stats"
  by (simp add: aggregate_def Let_def forEach_records_plain)

lemma fold_record_effect_fields:
  "stat_id (fold (record_effect cr pidx) rs s) = stat_id s"
  "stat_name (fold (record_effect cr pidx) rs s) = stat_name s"
  "sales_count (fold (record_effect cr pidx) rs s) = sales_count s + length rs"
  "revenue (fold (record_effect cr pidx) rs s) = revenue s + sum_list (map total_amount rs)"
  "profit (fold (record_effect cr pidx) rs s) =
     profit s + sum_list (map (\<lambda>r. sum_list (map (item_profit cr pidx) (items r))) rs)"
  "products_sold (fold (record_effect cr pidx) rs s) =
     fold (item_sold pidx) (concat (map items rs)) (products_sold s)"
  by (induction rs arbitrary: s; simp add: record_effect_def add.assoc)+

section \<open>Sorting and rounding\<close>

lemma sort_insert_insort_key:
  assumes "\<And>x y. cmp x y \<le> 0 \<longleftrightarrow> key x \<le> key y"
  shows "sort_insert cmp x ys = insort_key key x ys"
  by (induction ys) (simp_all add: assms)

lemma js_sort_sort_key:
  assumes "\<And>x y. cmp x y \<le> 0 \<longleftrightarrow> key x \<le> key y"
  shows "js_sort cmp xs = sort_key key xs"
  by (induction xs) (simp_all add: js_sort_def sort_insert_insort_key [OF assms])

lemma js_sort_by_profit: "js_sort by_profit xs = sort_key (\<lambda>s. - profit s) xs"
  by (rule js_sort_sort_key) (simp add: by_profit_def)

lemma js_sort_by_quantity: "js_sort by_quantity xs = sort_key (\<lambda>e. - snd e) xs"
  by (rule js_sort_sort_key) (simp add: by_quantity_def)


lemma toFixed2_nonneg:
  assumes "0 \<le> x"
  shows "toFixed 2 x = of_int \<lfloor>x * 100 + 1 / 2\<rfloor> / 100"
  using assms by (simp add: toFixed_def)

lemma toFixed2_neg:
  assumes "x < 0"
  shows "toFixed 2 x = - (of_int \<lfloor>(- x) * 100 + 1 / 2\<rfloor> / 100)"
  using assms by (simp add: toFixed_def)

lemma toFixed2_hundredths: "\<exists>n::int. toFixed 2 x = of_int n / 100"
proof (cases "x < 0")
  case True
  have "toFixed 2 x = of_int (- \<lfloor>(- x) * 100 + 1 / 2\<rfloor>) / 100"
    using True by (simp add: toFixed2_neg)
  then show ?thesis by blast
next
  case False
  then have "toFixed 2 x = of_int \<lfloor>x * 100 + 1 / 2\<rfloor> / 100"
    by (simp add: toFixed2_nonneg)
  then show ?thesis by blast
qed

lemma toFixed2_bounds:
  "(0 \<le> x \<longrightarrow> x - 1 / 200 < toFixed 2 x \<and> toFixed 2 x \<le> x + 1 / 200)
   \<and> (x < 0 \<longrightarrow> x - 1 / 200 \<le> toFixed 2 x \<and> toFixed 2 x < x + 1 / 200)"
proof (cases "x < 0")
  case True
  define n where "n = \<lfloor>(- x) * 100 + 1 / 2\<rfloor>"
  have "of_int n \<le> (- x) * 100 + 1 / 2" "(- x) * 100 + 1 / 2 < of_int n + 1"
    unfolding n_def by linarith+
  moreover have "toFixed 2 x = - (of_int n / 100)"
    using True by (simp add: toFixed2_neg n_def)
  ultimately show ?thesis using True by simp
next
  case False
  define n where "n = \<lfloor>x * 100 + 1 / 2\<rfloor>"
  have "of_int n \<le> x * 100 + 1 / 2" "x * 100 + 1 / 2 < of_int n + 1"
    unfolding n_def by linarith+
  moreover have "toFixed 2 x = of_int n / 100"
    using False by (simp add: toFixed2_nonneg n_def)
  ultimately show ?thesis using False by simp
qed

lemma toFixed2_close: "\<bar>toFixed 2 x - x\<bar> \<le> 1 / 200"
  using toFixed2_bounds [of x] by (cases "x < 0") linarith+

lemma toFixed2_tie: "\<bar>toFixed 2 x - x\<bar> = 1 / 200 \<Longrightarrow> \<bar>x\<bar> < \<bar>toFixed 2 x\<bar>"
  using toFixed2_bounds [of x] by (cases "x < 0") linarith+



section \<open>From the returned reports back to \<open>sellerStats\<close>\<close>

lemma analyze_Returns:
  "analyze cr cb ss ps rs = Returns out \<Longrightarrow>
     \<exists>stats. aggregate cr ss ps rs = Returns stats
       \<and> out = map report_of (rank cb (js_sort by_profit stats))"
  by (auto simp: analyze_def split: outcome.splits)

lemma call_valid:
  "ss \<noteq> [] \<Longrightarrow> ps \<noteq> [] \<Longrightarrow> rs \<noteq> [] \<Longrightarrow> call cr cb ss ps rs = analyze cr cb ss ps rs"
  by (simp add: analyzeSalesData_def)

lemma call_Returns:
  "call cr cb ss ps rs = Returns out \<Longrightarrow>
     ss \<noteq> [] \<and> ps \<noteq> [] \<and> rs \<noteq> []
     \<and> (\<exists>stats. aggregate cr ss ps rs = Returns stats
           \<and> out = map report_of (rank cb (js_sort by_profit stats)))"
  by (auto simp: analyzeSalesData_def dest: analyze_Returns split: if_splits)

lemma map_report_field:
  assumes "\<And>k s. h (report_of (assign cb n (k, s))) = g s"
  shows "map h (map report_of (map (assign cb n) (enumerate 0 xs))) = map g xs"
proof -
  have "map h (map report_of (map (assign cb n) (enumerate 0 xs)))
      = map (\<lambda>p. g (snd p)) (enumerate 0 xs)"
    by (simp add: assms split_def) (metis assms prod.collapse)
  also have "\<dots> = map g (map snd (enumerate 0 xs))"
    by (simp only: map_map comp_def)
  also have "\<dots> = map g xs"
    by (simp only: map_snd_enumerate)
  finally show ?thesis .
qed

lemma reports_field:
  assumes "\<And>n k s. h (report_of (assign cb n (k, s))) = g s"
  shows "map h (map report_of (rank cb xs)) = map g xs"
  unfolding rank_def by (rule map_report_field) (rule assms)

lemma reports_mset:
  assumes "\<And>n k s. h (report_of (assign cb n (k, s))) = g s"
  shows "mset (map h (map report_of (rank cb (js_sort by_profit stats)))) = mset (map g stats)"
proof -
  have "mset (map g (js_sort by_profit stats)) = mset (map g stats)"
    by (simp add: js_sort_by_profit)
  then show ?thesis
    by (simp only: reports_field [of h cb g, OF assms])
qed

lemma stats_by_position:
  assumes "aggregate cr ss ps rs = Returns stats"
  shows "map g stats =
     map (\<lambda>i. g (fold (record_effect cr (product_of ps)) (attributed ss i rs) (init_stat (ss ! i))))
       [0..<length ss]"
proof -
  have "map g stats = map (\<lambda>i. g (stats ! i)) [0..<length stats]"
    by (rule nth_equalityI) simp_all
  then show ?thesis
    using aggregate_Returns [OF assms] by simp
qed

lemma count_resolving:
  "sum_list (map (\<lambda>i. if resolves ss k i then 1 else 0) [0..<length ss])
     = (if k \<in> s_id ` set ss then 1 else (0::nat))"
proof (cases "k \<in> s_id ` set ss")
  case True
  then obtain a where a: "resolves ss k a" using resolves_ex by blast
  then have lt: "a < length ss" by (simp add: resolves_def)
  have "\<And>i. resolves ss k i \<longleftrightarrow> i = a"
    using a resolves_unique by blast
  then have "sum_list (map (\<lambda>i. if resolves ss k i then 1 else 0) [0..<length ss])
      = sum_list (map (\<lambda>i. if i = a then 1 else (0::nat)) [0..<length ss])"
    by simp
  also have "\<dots> = (\<Sum>i = 0..<length ss. if i = a then 1 else 0)"
    by (simp add: interv_sum_list_conv_sum_set_nat)
  also have "\<dots> = 1"
    using lt by simp
  finally show ?thesis using True by simp
next
  case False
  then have "\<And>i. \<not> resolves ss k i"
    using resolves_mem by blast
  with False show ?thesis by simp
qed

lemma count_attributed:
  "sum_list (map (\<lambda>i. length (attributed ss i rs)) [0..<length ss])
     = length (filter (\<lambda>r. seller_id r \<in> s_id ` set ss) rs)"
proof (induction rs)
  case Nil
  then show ?case by (simp add: attributed_def)
next
  case (Cons r rs)
  have "sum_list (map (\<lambda>i. length (attributed ss i (r # rs))) [0..<length ss])
      = sum_list (map (\<lambda>i. (if resolves ss (seller_id r) i then 1 else 0)
                           + length (attributed ss i rs)) [0..<length ss])"
    by (rule arg_cong [where f = sum_list]) (simp add: attributed_def)
  also have "\<dots> = sum_list (map (\<lambda>i. if resolves ss (seller_id r) i then 1 else 0) [0..<length ss])
                   + sum_list (map (\<lambda>i. length (attributed ss i rs)) [0..<length ss])"
    by (simp add: sum_list_addf)
  finally show ?case
    using Cons.IH by (simp add: count_resolving)
qed

lemma stats_revenue:
  assumes "aggregate cr ss ps rs = Returns stats" and "i < length ss"
  shows "revenue (stats ! i) = sum_list (map total_amount (attributed ss i rs))"
  using aggregate_Returns(2) [OF assms] by (simp add: fold_record_effect_fields init_stat_def)

lemma stats_profit:
  assumes "aggregate cr ss ps rs = Returns stats" and "i < length ss"
  shows "profit (stats ! i) =
     sum_list (map (\<lambda>r. sum_list (map (item_profit cr (product_of ps)) (items r)))
                 (attributed ss i rs))"
  using aggregate_Returns(2) [OF assms] by (simp add: fold_record_effect_fields init_stat_def)

lemma reports_revenue:
  assumes "call cr cb ss ps rs = Returns out"
  shows "mset (map (\<lambda>r. (r_seller_id r, r_revenue r)) out)
       = mset (map (\<lambda>i. (s_id (ss ! i), toFixed 2 (sum_list (map total_amount (attributed ss i rs)))))
                [0..<length ss])"
proof -
  from call_Returns [OF assms] obtain stats where
    agg: "aggregate cr ss ps rs = Returns stats" and
    out: "out = map report_of (rank cb (js_sort by_profit stats))"
    by blast
  have "mset (map (\<lambda>r. (r_seller_id r, r_revenue r)) out)
      = mset (map (\<lambda>s. (stat_id s, toFixed 2 (revenue s))) stats)"
    unfolding out by (rule reports_mset) (simp add: report_of_def assign_def)
  also have "map (\<lambda>s. (stat_id s, toFixed 2 (revenue s))) stats
      = map (\<lambda>i. (s_id (ss ! i), toFixed 2 (sum_list (map total_amount (attributed ss i rs)))))
          [0..<length ss]"
    by (simp add: stats_by_position [OF agg] fold_record_effect_fields init_stat_def)
  finally show ?thesis .
qed

lemma process_item_profit:
  assumes "process_item cr (productIndex ps) s item = Returns s'"
    and "product_of ps (sku item) = Some p"
  shows "profit s' = profit s + (cr item p - purchase_price p * quantity item)"
  using process_item_Returns [OF assms(1)] assms(2)
  by (simp add: productIndex_product_of item_profit_def)

section \<open>The small data set, evaluated\<close>

lemma ex_aggregate:
  "aggregate calculateSimpleRevenue ex_sellers ex_products ex_records = Returns ex_stats"
  by (simp add: aggregate_def ex_sellers_def ex_products_def ex_records_def ex_stats_def
      init_stat_def sellerIndex_def productIndex_def fromEntries_def process_record_def
      process_item_def get_property_def Object_prototype_keys_def count_sold_def
      calculateSimpleRevenue_def Let_def)

lemma ex_nonempty: "ex_sellers \<noteq> []" "ex_products \<noteq> []" "ex_records \<noteq> []"
  by (simp_all add: ex_sellers_def ex_products_def ex_records_def)

lemma ex_ranking:
  "map report_of (rank calculateBonusByProfit (js_sort by_profit ex_stats)) = ex_reports"
  by (simp add: ex_stats_def ex_reports_def js_sort_def by_profit_def rank_def assign_def
      report_of_def top_products_of_def Object_entries_def is_array_index_def array_index_def
      digit_value_def by_quantity_def toFixed_def calculateBonusByProfit_def)

lemma ex_analyze:
  "analyzeSalesData ex_data ex_options = Returns ex_reports"
  by (simp add: analyzeSalesData_def ex_data_def ex_options_def analyze_def ex_aggregate
      ex_nonempty ex_ranking)

lemma ex_call:
  "call calculateSimpleRevenue calculateBonusByProfit ex_sellers ex_products ex_records
     = Returns ex_reports"
  using ex_analyze by (simp add: ex_data_def ex_options_def)

lemma ex_item:
  "process_item calculateSimpleRevenue (productIndex ex_products)
     \<lparr>stat_id = ''s1'', stat_name = ''Ann Lee'', revenue = 100, profit = 0,
      sales_count = 1, products_sold = []\<rparr>
     \<lparr>sku = ''a'', sale_price = 15, quantity = 2, discount = 10\<rparr>
   = Returns \<lparr>stat_id = ''s1'', stat_name = ''Ann Lee'', revenue = 100, profit = 7,
              sales_count = 1, products_sold = [(''a'', 2)]\<rparr>"
  by (simp add: process_item_def productIndex_def ex_products_def fromEntries_def
      get_property_def Object_prototype_keys_def count_sold_def calculateSimpleRevenue_def)

lemma ex_product_of:
  "product_of ex_products ''a'' = Some \<lparr>p_sku = ''a'', purchase_price = 10\<rparr>"
  by (simp add: product_of_def ex_products_def)

lemma tie_aggregate:
  "aggregate no_revenue ex_sellers ex_products ex_records = Returns tie_stats"
  by (simp add: aggregate_def ex_sellers_def ex_products_def ex_records_def tie_stats_def
      init_stat_def sellerIndex_def productIndex_def fromEntries_def process_record_def
      process_item_def get_property_def Object_prototype_keys_def count_sold_def
      no_revenue_def Let_def)

lemma tie_ranking:
  "map report_of (rank no_bonus (js_sort by_profit tie_stats)) = tie_reports"
  by (simp add: tie_stats_def tie_reports_def js_sort_def by_profit_def rank_def assign_def
      report_of_def top_products_of_def Object_entries_def is_array_index_def array_index_def
      digit_value_def by_quantity_def toFixed_def no_bonus_def)

lemma tie_call:
  "call no_revenue no_bonus ex_sellers ex_products ex_records = Returns tie_reports"
  by (simp add: analyzeSalesData_def analyze_def tie_aggregate ex_nonempty tie_ranking)

section \<open>The ranked array and the rounding\<close>

lemma length_rank: "length (rank cb xs) = length xs"
  by (simp add: rank_def)

lemma nth_rank:
  "k < length xs \<Longrightarrow> rank cb xs ! k = assign cb (length xs) (k, xs ! k)"
  by (simp add: rank_def nth_enumerate_eq)





lemma toFixed2_unique:
  fixes n :: int
  assumes "r = of_int n / 100" and "\<bar>r - x\<bar> \<le> 1 / 200"
    and "\<bar>r - x\<bar> = 1 / 200 \<longrightarrow> \<bar>x\<bar> < \<bar>r\<bar>"
  shows "toFixed 2 x = r"
proof -
  have rn: "real_of_int n = r * 100"
    using assms(1) by simp
  have up: "r - x \<le> 1 / 200" and lo: "x - r \<le> 1 / 200"
    using assms(2) by linarith+
  show ?thesis
  proof (cases "x < 0")
    case True
    define m where "m = \<lfloor>(- x) * 100 + 1 / 2\<rfloor>"
    have t: "toFixed 2 x = - (of_int m / 100)"
      using True by (simp add: toFixed2_neg m_def)
    have "real_of_int (- n) \<le> (- x) * 100 + 1 / 2"
      using rn lo by simp
    then have le: "- n \<le> m"
      unfolding m_def by (simp only: le_floor_iff)
    have "r - x \<noteq> 1 / 200"
    proof
      assume tie: "r - x = 1 / 200"
      with assms(3) have away: "\<bar>x\<bar> < \<bar>r\<bar>" by simp
      with True tie have "0 < r" by linarith
      with rn have "0 < real_of_int n" by linarith
      then have "1 \<le> n" by simp
      then have "1 \<le> real_of_int n" by simp
      with rn tie True show False by linarith
    qed
    then have "r - x < 1 / 200"
      using up by linarith
    then have "(- x) * 100 + 1 / 2 < real_of_int (- n + 1)"
      using rn by simp
    then have "m < - n + 1"
      unfolding m_def by (simp only: floor_less_iff)
    with le have "m = - n" by simp
    with t rn show ?thesis by simp
  next
    case False
    define m where "m = \<lfloor>x * 100 + 1 / 2\<rfloor>"
    have t: "toFixed 2 x = of_int m / 100"
      using False by (simp add: toFixed2_nonneg m_def)
    have "real_of_int n \<le> x * 100 + 1 / 2"
      using rn up by simp
    then have le: "n \<le> m"
      unfolding m_def by (simp only: le_floor_iff)
    have "x - r \<noteq> 1 / 200"
    proof
      assume tie: "x - r = 1 / 200"
      then have "\<bar>r - x\<bar> = 1 / 200" by simp
      with assms(3) have away: "\<bar>x\<bar> < \<bar>r\<bar>" by simp
      with False tie have "r < 0" by linarith
      with rn have "real_of_int n < 0" by linarith
      then have "n \<le> - 1" by simp
      then have "real_of_int n \<le> - 1" by (metis of_int_le_iff of_int_minus of_int_1)
      with rn tie False show False by linarith
    qed
    then have "x - r < 1 / 200"
      using lo by linarith
    then have "x * 100 + 1 / 2 < real_of_int (n + 1)"
      using rn by simp
    then have "m < n + 1"
      unfolding m_def by (simp only: floor_less_iff)
    with le have "m = n" by simp
    with t rn show ?thesis by simp
  qed
qed

lemma toFixed2_iff:
  "toFixed 2 x = r \<longleftrightarrow>
     (\<exists>n::int. r = of_int n / 100) \<and> \<bar>r - x\<bar> \<le> 1 / 200
     \<and> (\<bar>r - x\<bar> = 1 / 200 \<longrightarrow> \<bar>x\<bar> < \<bar>r\<bar>)"
proof
  assume "toFixed 2 x = r"
  then show "(\<exists>n::int. r = of_int n / 100) \<and> \<bar>r - x\<bar> \<le> 1 / 200
     \<and> (\<bar>r - x\<bar> = 1 / 200 \<longrightarrow> \<bar>x\<bar> < \<bar>r\<bar>)"
    using toFixed2_hundredths [of x] toFixed2_close [of x] toFixed2_tie [of x] by blast
next
  assume "(\<exists>n::int. r = of_int n / 100) \<and> \<bar>r - x\<bar> \<le> 1 / 200
     \<and> (\<bar>r - x\<bar> = 1 / 200 \<longrightarrow> \<bar>x\<bar> < \<bar>r\<bar>)"
  then show "toFixed 2 x = r"
    using toFixed2_unique by blast
qed

section \<open>The three checks\<close>

lemma invalid_data_throws:
  assumes "invalid_data data"
  shows "analyzeSalesData data options = Throws InvalidData"
proof (cases data)
  case None
  then show ?thesis by (simp add: analyzeSalesData_def)
next
  case (Some d)
  with assms have bad: "\<not> nonempty_array (sellers d) \<or> \<not> nonempty_array (products d)
      \<or> \<not> nonempty_array (purchase_records d)"
    by (simp add: invalid_data_def)
  show ?thesis
  proof (cases "sellers d")
    case NotArray
    with Some show ?thesis by (simp add: analyzeSalesData_def)
  next
    case ss: (Array ss)
    show ?thesis
    proof (cases "products d")
      case NotArray
      with Some ss show ?thesis by (simp add: analyzeSalesData_def)
    next
      case ps: (Array ps)
      show ?thesis
      proof (cases "purchase_records d")
        case NotArray
        with Some ss ps show ?thesis by (simp add: analyzeSalesData_def)
      next
        case rs: (Array rs)
        with Some ss ps bad show ?thesis by (auto simp: analyzeSalesData_def)
      qed
    qed
  qed
qed

lemma valid_data_shape:
  assumes "\<not> invalid_data data"
  obtains ss ps rs where
    "data = Some \<lparr>sellers = Array ss, products = Array ps, purchase_records = Array rs\<rparr>"
    "ss \<noteq> []" "ps \<noteq> []" "rs \<noteq> []"
proof -
  from assms obtain d where d: "data = Some d"
    by (cases data) (auto simp: invalid_data_def)
  from assms d obtain ss ps rs where
    "sellers d = Array ss" "products d = Array ps" "purchase_records d = Array rs"
    "ss \<noteq> []" "ps \<noteq> []" "rs \<noteq> []"
    by (cases "sellers d"; cases "products d"; cases "purchase_records d")
       (auto simp: invalid_data_def)
  moreover from this have "d = \<lparr>sellers = Array ss, products = Array ps, purchase_records = Array rs\<rparr>"
    by (cases d) simp
  ultimately show ?thesis using d that by blast
qed

lemma invalid_options_throws:
  assumes "\<not> invalid_data data" and "invalid_options options"
  shows "analyzeSalesData data options = Throws InvalidOptions"
proof -
  from assms(1) obtain ss ps rs where
    "data = Some \<lparr>sellers = Array ss, products = Array ps, purchase_records = Array rs\<rparr>"
    "ss \<noteq> []" "ps \<noteq> []" "rs \<noteq> []"
    by (rule valid_data_shape)
  with assms(2) show ?thesis
    by (cases options) (simp_all add: analyzeSalesData_def)
qed

lemma missing_strategy_throws:
  assumes "\<not> invalid_data data" and "missing_strategy options"
  shows "analyzeSalesData data options = Throws MissingFunctions"
proof -
  from assms(1) obtain ss ps rs where
    "data = Some \<lparr>sellers = Array ss, products = Array ps, purchase_records = Array rs\<rparr>"
    "ss \<noteq> []" "ps \<noteq> []" "rs \<noteq> []"
    by (rule valid_data_shape)
  moreover from assms(2) obtain cr cb where
    "options = Options cr cb" "\<not> callable cr \<or> \<not> callable cb"
    by (cases options) simp_all
  ultimately show ?thesis
    by (cases cr; cases cb) (simp_all add: analyzeSalesData_def)
qed

lemma checks_passed_shape:
  assumes "\<not> invalid_data data" "\<not> invalid_options options" "\<not> missing_strategy options"
  shows "\<exists>cr cb ss ps rs. ss \<noteq> [] \<and> ps \<noteq> [] \<and> rs \<noteq> []
           \<and> analyzeSalesData data options = call cr cb ss ps rs"
proof -
  from assms(1) obtain ss ps rs where
    d: "data = Some \<lparr>sellers = Array ss, products = Array ps, purchase_records = Array rs\<rparr>"
    "ss \<noteq> []" "ps \<noteq> []" "rs \<noteq> []"
    by (rule valid_data_shape)
  from assms(2,3) obtain f g where "options = Options f g" "callable f" "callable g"
    by (cases options) simp_all
  then obtain cr cb where "options = Options (Callable cr) (Callable cb)"
    by (cases f; cases g) simp_all
  with d show ?thesis by blast
qed

lemma call_plain_Returns:
  assumes "ss \<noteq> []" "ps \<noteq> []" "rs \<noteq> []" "plain_keys rs"
  shows "\<exists>out. call cr cb ss ps rs = Returns out"
proof -
  from aggregate_plain [OF assms(4)] obtain stats where
    "aggregate cr ss ps rs = Returns stats" by blast
  then show ?thesis
    using assms(1-3) by (simp add: call_valid analyze_def)
qed

lemma ex_plain_keys: "plain_keys ex_records"
  by (simp add: plain_keys_def ex_records_def Object_prototype_keys_def)

section \<open>The validation as a whole\<close>

text \<open>
  The three checks reject exactly the shapes the specification lists, in the order of
  the source and before any aggregation. An input that passes them is a call with three
  non-empty arrays and two functions; it returns when, besides, no \<open>seller_id\<close> and no
  \<open>sku\<close> of its records names a property of \<open>Object.prototype\<close>.
\<close>

lemma validation_checks:
  "(invalid_data data \<longrightarrow> analyzeSalesData data options = Throws InvalidData)
   \<and> (\<not> invalid_data data \<longrightarrow> invalid_options options \<longrightarrow>
        analyzeSalesData data options = Throws InvalidOptions)
   \<and> (\<not> invalid_data data \<longrightarrow> missing_strategy options \<longrightarrow>
        analyzeSalesData data options = Throws MissingFunctions)
   \<and> (invalid_data data \<or> invalid_options options \<or> missing_strategy options \<longrightarrow>
        (\<exists>e. analyzeSalesData data options = Throws e))
   \<and> (\<not> invalid_data data \<longrightarrow> \<not> invalid_options options \<longrightarrow> \<not> missing_strategy options \<longrightarrow>
        (\<exists>cr cb ss ps rs. ss \<noteq> [] \<and> ps \<noteq> [] \<and> rs \<noteq> []
           \<and> analyzeSalesData data options = call cr cb ss ps rs))
   \<and> (ss \<noteq> [] \<longrightarrow> ps \<noteq> [] \<longrightarrow> rs \<noteq> [] \<longrightarrow> plain_keys rs \<longrightarrow>
        (\<exists>out. call calcRevenue calcBonus ss ps rs = Returns out))"
proof (intro conjI impI)
  assume "invalid_data data"
  then show "analyzeSalesData data options = Throws InvalidData"
    by (rule invalid_data_throws)
next
  assume "\<not> invalid_data data" "invalid_options options"
  then show "analyzeSalesData data options = Throws InvalidOptions"
    by (rule invalid_options_throws)
next
  assume "\<not> invalid_data data" "missing_strategy options"
  then show "analyzeSalesData data options = Throws MissingFunctions"
    by (rule missing_strategy_throws)
next
  assume bad: "invalid_data data \<or> invalid_options options \<or> missing_strategy options"
  show "\<exists>e. analyzeSalesData data options = Throws e"
  proof (cases "invalid_data data")
    case True
    then show ?thesis using invalid_data_throws by blast
  next
    case False
    with bad have "invalid_options options \<or> missing_strategy options" by simp
    then show ?thesis
      using invalid_options_throws [OF False] missing_strategy_throws [OF False] by blast
  qed
next
  assume "\<not> invalid_data data" "\<not> invalid_options options" "\<not> missing_strategy options"
  then show "\<exists>cr cb ss ps rs. ss \<noteq> [] \<and> ps \<noteq> [] \<and> rs \<noteq> []
           \<and> analyzeSalesData data options = call cr cb ss ps rs"
    by (rule checks_passed_shape)
next
  assume "ss \<noteq> []" "ps \<noteq> []" "rs \<noteq> []" "plain_keys rs"
  then show "\<exists>out. call calcRevenue calcBonus ss ps rs = Returns out"
    by (rule call_plain_Returns)
qed

lemma validation_checks_examples:
  "invalid_data None
   \<and> analyzeSalesData None ex_options = Throws InvalidData
   \<and> invalid_data (Some \<lparr>sellers = Array ex_sellers, products = NotArray,
                          purchase_records = Array ex_records\<rparr>)
   \<and> analyzeSalesData (Some \<lparr>sellers = Array ex_sellers, products = NotArray,
                                purchase_records = Array ex_records\<rparr>) OptionsFalsy
       = Throws InvalidData
   \<and> invalid_data (Some \<lparr>sellers = Array ex_sellers, products = Array ex_products,
                          purchase_records = Array []\<rparr>)
   \<and> analyzeSalesData (Some \<lparr>sellers = Array ex_sellers, products = Array ex_products,
                                purchase_records = Array []\<rparr>) ex_options
       = Throws InvalidData
   \<and> \<not> invalid_data ex_data
   \<and> invalid_options OptionsNotObject
   \<and> analyzeSalesData ex_data OptionsNotObject = Throws InvalidOptions
   \<and> missing_strategy (Options (Callable calculateSimpleRevenue) NotFunction)
   \<and> analyzeSalesData ex_data (Options (Callable calculateSimpleRevenue) NotFunction)
       = Throws MissingFunctions
   \<and> missing_strategy (Options Falsy (Callable calculateBonusByProfit))
   \<and> analyzeSalesData ex_data (Options Falsy (Callable calculateBonusByProfit))
       = Throws MissingFunctions
   \<and> ex_sellers \<noteq> [] \<and> ex_products \<noteq> [] \<and> ex_records \<noteq> [] \<and> plain_keys ex_records
   \<and> (\<exists>out. call calculateSimpleRevenue calculateBonusByProfit ex_sellers ex_products
                ex_records = Returns out)"
proof -
  have v: "\<not> invalid_data ex_data"
    by (simp add: invalid_data_def ex_data_def ex_nonempty)
  have i1: "invalid_data None"
    by (simp add: invalid_data_def)
  have i2: "invalid_data (Some \<lparr>sellers = Array ex_sellers, products = NotArray,
                          purchase_records = Array ex_records\<rparr>)"
    by (simp add: invalid_data_def)
  have i3: "invalid_data (Some \<lparr>sellers = Array ex_sellers, products = Array ex_products,
                          purchase_records = Array []\<rparr>)"
    by (simp add: invalid_data_def)
  have o1: "invalid_options OptionsNotObject" by simp
  have m1: "missing_strategy (Options (Callable calculateSimpleRevenue) NotFunction)" by simp
  have m2: "missing_strategy (Options Falsy (Callable calculateBonusByProfit))" by simp
  note T = validation_checks
  from T [of None ex_options] i1
  have "analyzeSalesData None ex_options = Throws InvalidData" by blast
  moreover from T [of "Some \<lparr>sellers = Array ex_sellers, products = NotArray,
                          purchase_records = Array ex_records\<rparr>" OptionsFalsy] i2
  have "analyzeSalesData (Some \<lparr>sellers = Array ex_sellers, products = NotArray,
                                purchase_records = Array ex_records\<rparr>) OptionsFalsy
       = Throws InvalidData" by blast
  moreover from T [of "Some \<lparr>sellers = Array ex_sellers, products = Array ex_products,
                          purchase_records = Array []\<rparr>" ex_options] i3
  have "analyzeSalesData (Some \<lparr>sellers = Array ex_sellers, products = Array ex_products,
                                purchase_records = Array []\<rparr>) ex_options
       = Throws InvalidData" by blast
  moreover from T [of ex_data OptionsNotObject] v o1
  have "analyzeSalesData ex_data OptionsNotObject = Throws InvalidOptions" by blast
  moreover from T [of ex_data "Options (Callable calculateSimpleRevenue) NotFunction"] v m1
  have "analyzeSalesData ex_data (Options (Callable calculateSimpleRevenue) NotFunction)
       = Throws MissingFunctions" by blast
  moreover from T [of ex_data "Options Falsy (Callable calculateBonusByProfit)"] v m2
  have "analyzeSalesData ex_data (Options Falsy (Callable calculateBonusByProfit))
       = Throws MissingFunctions" by blast
  moreover from T [where ss = ex_sellers and ps = ex_products and rs = ex_records
      and calcRevenue = calculateSimpleRevenue and calcBonus = calculateBonusByProfit]
    ex_nonempty ex_plain_keys
  have "\<exists>out. call calculateSimpleRevenue calculateBonusByProfit ex_sellers ex_products
                ex_records = Returns out" by blast
  ultimately show ?thesis
    using v i1 i2 i3 o1 m1 m2 ex_nonempty ex_plain_keys by blast
qed

section \<open>Duplicate keys in the indexes\<close>

lemma not_in_drop_iff:
  "key \<notin> set (map f (drop (Suc i) xs)) \<longleftrightarrow> (\<forall>j. i < j \<and> j < length xs \<longrightarrow> f (xs ! j) \<noteq> key)"
proof
  assume notin: "key \<notin> set (map f (drop (Suc i) xs))"
  show "\<forall>j. i < j \<and> j < length xs \<longrightarrow> f (xs ! j) \<noteq> key"
  proof (intro allI impI)
    fix j assume j: "i < j \<and> j < length xs"
    then have "xs ! j \<in> set (drop (Suc i) xs)"
      by (auto simp: in_set_conv_nth intro!: exI [of _ "j - Suc i"])
    with notin show "f (xs ! j) \<noteq> key" by auto
  qed
next
  assume all: "\<forall>j. i < j \<and> j < length xs \<longrightarrow> f (xs ! j) \<noteq> key"
  show "key \<notin> set (map f (drop (Suc i) xs))"
  proof
    assume "key \<in> set (map f (drop (Suc i) xs))"
    then obtain k where "k < length xs - Suc i" "f (drop (Suc i) xs ! k) = key"
      by (auto simp: in_set_conv_nth)
    then have "Suc i + k < length xs" "f (xs ! (Suc i + k)) = key"
      by simp_all
    with all show False by auto
  qed
qed

lemma sellerIndex_Own:
  "get_property (sellerIndex (map init_stat ss)) key = Own i \<longleftrightarrow>
     i < length ss \<and> s_id (ss ! i) = key
     \<and> (\<forall>j. i < j \<and> j < length ss \<longrightarrow> s_id (ss ! j) \<noteq> key)"
proof -
  have "get_property (sellerIndex (map init_stat ss)) key = Own i
      \<longleftrightarrow> sellerIndex (map init_stat ss) key = Some i"
    by (simp add: get_property_def split: option.splits)
  then show ?thesis
    by (simp add: sellerIndex_resolves resolves_def not_in_drop_iff del: set_map)
qed

lemma product_of_snoc:
  "product_of (ps @ [q]) key = (if p_sku q = key then Some q else product_of ps key)"
  by (simp add: product_of_def)

lemma product_of_last:
  "product_of ps key = Some p \<longleftrightarrow>
     (\<exists>i<length ps. ps ! i = p \<and> p_sku p = key
        \<and> (\<forall>j. i < j \<and> j < length ps \<longrightarrow> p_sku (ps ! j) \<noteq> key))"
proof (induction ps rule: rev_induct)
  case Nil
  then show ?case by (simp add: product_of_def)
next
  case (snoc q ps)
  show ?case
  proof (cases "p_sku q = key")
    case True
    have "(\<exists>i<length (ps @ [q]). (ps @ [q]) ! i = p \<and> p_sku p = key
        \<and> (\<forall>j. i < j \<and> j < length (ps @ [q]) \<longrightarrow> p_sku ((ps @ [q]) ! j) \<noteq> key)) \<longleftrightarrow> p = q"
    proof
      assume "\<exists>i<length (ps @ [q]). (ps @ [q]) ! i = p \<and> p_sku p = key
        \<and> (\<forall>j. i < j \<and> j < length (ps @ [q]) \<longrightarrow> p_sku ((ps @ [q]) ! j) \<noteq> key)"
      then obtain i where i: "i < length (ps @ [q])" "(ps @ [q]) ! i = p"
        "\<forall>j. i < j \<and> j < length (ps @ [q]) \<longrightarrow> p_sku ((ps @ [q]) ! j) \<noteq> key"
        by blast
      have "i = length ps"
      proof (rule ccontr)
        assume "i \<noteq> length ps"
        with i(1) have "i < length ps" by simp
        with i(3) [rule_format, of "length ps"]
        have "p_sku ((ps @ [q]) ! length ps) \<noteq> key" by simp
        with True show False by simp
      qed
      with i(2) show "p = q" by simp
    next
      assume "p = q"
      with True show "\<exists>i<length (ps @ [q]). (ps @ [q]) ! i = p \<and> p_sku p = key
        \<and> (\<forall>j. i < j \<and> j < length (ps @ [q]) \<longrightarrow> p_sku ((ps @ [q]) ! j) \<noteq> key)"
        by (intro exI [of _ "length ps"]) auto
    qed
    with True show ?thesis by (auto simp: product_of_snoc)
  next
    case False
    have "(\<exists>i<length (ps @ [q]). (ps @ [q]) ! i = p \<and> p_sku p = key
        \<and> (\<forall>j. i < j \<and> j < length (ps @ [q]) \<longrightarrow> p_sku ((ps @ [q]) ! j) \<noteq> key))
      \<longleftrightarrow> (\<exists>i<length ps. ps ! i = p \<and> p_sku p = key
        \<and> (\<forall>j. i < j \<and> j < length ps \<longrightarrow> p_sku (ps ! j) \<noteq> key))"
    proof
      assume "\<exists>i<length (ps @ [q]). (ps @ [q]) ! i = p \<and> p_sku p = key
        \<and> (\<forall>j. i < j \<and> j < length (ps @ [q]) \<longrightarrow> p_sku ((ps @ [q]) ! j) \<noteq> key)"
      then obtain i where i: "i < length (ps @ [q])" "(ps @ [q]) ! i = p" "p_sku p = key"
        "\<forall>j. i < j \<and> j < length (ps @ [q]) \<longrightarrow> p_sku ((ps @ [q]) ! j) \<noteq> key"
        by blast
      have lt: "i < length ps"
      proof (rule ccontr)
        assume "\<not> i < length ps"
        with i(1) have "i = length ps" by simp
        with i(2,3) False show False by simp
      qed
      moreover from lt i(2) have "ps ! i = p" by (simp add: nth_append)
      moreover have "\<forall>j. i < j \<and> j < length ps \<longrightarrow> p_sku (ps ! j) \<noteq> key"
      proof (intro allI impI)
        fix j assume j: "i < j \<and> j < length ps"
        with i(4) have "p_sku ((ps @ [q]) ! j) \<noteq> key" by simp
        with j show "p_sku (ps ! j) \<noteq> key" by (simp add: nth_append)
      qed
      ultimately show "\<exists>i<length ps. ps ! i = p \<and> p_sku p = key
        \<and> (\<forall>j. i < j \<and> j < length ps \<longrightarrow> p_sku (ps ! j) \<noteq> key)"
        using i(3) by blast
    next
      assume "\<exists>i<length ps. ps ! i = p \<and> p_sku p = key
        \<and> (\<forall>j. i < j \<and> j < length ps \<longrightarrow> p_sku (ps ! j) \<noteq> key)"
      then obtain i where i: "i < length ps" "ps ! i = p" "p_sku p = key"
        "\<forall>j. i < j \<and> j < length ps \<longrightarrow> p_sku (ps ! j) \<noteq> key"
        by blast
      have "\<forall>j. i < j \<and> j < length (ps @ [q]) \<longrightarrow> p_sku ((ps @ [q]) ! j) \<noteq> key"
      proof (intro allI impI)
        fix j assume j: "i < j \<and> j < length (ps @ [q])"
        show "p_sku ((ps @ [q]) ! j) \<noteq> key"
        proof (cases "j < length ps")
          case True
          with i(4) j show ?thesis by (simp add: nth_append)
        next
          case False
          with j have "j = length ps" by simp
          with \<open>p_sku q \<noteq> key\<close> show ?thesis by simp
        qed
      qed
      with i(1,2,3) show "\<exists>i<length (ps @ [q]). (ps @ [q]) ! i = p \<and> p_sku p = key
        \<and> (\<forall>j. i < j \<and> j < length (ps @ [q]) \<longrightarrow> p_sku ((ps @ [q]) ! j) \<noteq> key)"
        by (intro exI [of _ i]) (simp add: nth_append)
    qed
    with False snoc show ?thesis by (simp add: product_of_snoc)
  qed
qed

lemma productIndex_Own:
  "get_property (productIndex ps) key = Own p \<longleftrightarrow>
     (\<exists>i<length ps. ps ! i = p \<and> p_sku p = key
        \<and> (\<forall>j. i < j \<and> j < length ps \<longrightarrow> p_sku (ps ! j) \<noteq> key))"
proof -
  have "get_property (productIndex ps) key = Own p \<longleftrightarrow> product_of ps key = Some p"
    by (simp add: get_property_def productIndex_product_of split: option.splits)
  also have "\<dots> \<longleftrightarrow> (\<exists>i<length ps. ps ! i = p \<and> p_sku p = key
        \<and> (\<forall>j. i < j \<and> j < length ps \<longrightarrow> p_sku (ps ! j) \<noteq> key))"
    by (rule product_of_last)
  finally show ?thesis .
qed

lemma earlier_duplicate_unresolved:
  assumes "i < j" "j < length ss" "s_id (ss ! i) = s_id (ss ! j)"
  shows "\<not> resolves ss key i"
proof
  assume "resolves ss key i"
  then have key: "s_id (ss ! i) = key" and "key \<notin> set (map s_id (drop (Suc i) ss))"
    by (simp_all add: resolves_def)
  from this(2) have "\<forall>j. i < j \<and> j < length ss \<longrightarrow> s_id (ss ! j) \<noteq> key"
    by (rule not_in_drop_iff [THEN iffD1])
  from this [rule_format, of j] assms(1,2) have "s_id (ss ! j) \<noteq> key"
    by simp
  with key assms(3) show False by simp
qed

lemma earlier_duplicate_untouched:
  assumes "aggregate cr ss ps rs = Returns stats"
    and "i < j" "j < length ss" "s_id (ss ! i) = s_id (ss ! j)"
  shows "stats ! i = init_stat (ss ! i)"
proof -
  have "attributed ss i rs = []"
    using earlier_duplicate_unresolved [OF assms(2-4)] by (simp add: attributed_def)
  moreover have "i < length ss" using assms(2,3) by simp
  ultimately show ?thesis
    using aggregate_Returns(2) [OF assms(1)] by simp
qed

lemma top_products_of_empty: "top_products_of [] = []"
  by (simp add: top_products_of_def Object_entries_def js_sort_def)

lemma toFixed_zero: "toFixed f 0 = 0"
  by (simp add: toFixed_def)

lemma untouched_report:
  assumes "call cr cb ss ps rs = Returns out"
    and "i < j" "j < length ss" "s_id (ss ! i) = s_id (ss ! j)"
  shows "\<exists>b. \<lparr>r_seller_id = s_id (ss ! i),
              r_name = first_name (ss ! i) @ '' '' @ last_name (ss ! i),
              r_revenue = 0, r_profit = 0, r_sales_count = 0,
              r_top_products = [], r_bonus = b\<rparr> \<in> set out"
proof -
  from call_Returns [OF assms(1)] obtain stats where
    agg: "aggregate cr ss ps rs = Returns stats" and
    out: "out = map report_of (rank cb (js_sort by_profit stats))"
    by blast
  let ?sorted = "js_sort by_profit stats"
  have i: "i < length stats"
    using assms(2,3) aggregate_Returns(1) [OF agg] by simp
  have "stats ! i = init_stat (ss ! i)"
    by (rule earlier_duplicate_untouched [OF agg assms(2-4)])
  with i have "init_stat (ss ! i) \<in> set stats"
    by (metis nth_mem)
  then have "init_stat (ss ! i) \<in> set ?sorted"
    by (simp add: js_sort_by_profit)
  then obtain k where k: "k < length ?sorted" "?sorted ! k = init_stat (ss ! i)"
    by (auto simp: in_set_conv_nth)
  have "out ! k = report_of (assign cb (length ?sorted) (k, init_stat (ss ! i)))"
    using k by (simp add: out length_rank nth_rank)
  also have "\<dots> = \<lparr>r_seller_id = s_id (ss ! i),
              r_name = first_name (ss ! i) @ '' '' @ last_name (ss ! i),
              r_revenue = 0, r_profit = 0, r_sales_count = 0,
              r_top_products = [],
              r_bonus = toFixed 2 (cb (int k) (int (length ?sorted)) (init_stat (ss ! i)))\<rparr>"
    by (simp add: report_of_def assign_def init_stat_def top_products_of_empty toFixed_zero)
  finally have "\<lparr>r_seller_id = s_id (ss ! i),
              r_name = first_name (ss ! i) @ '' '' @ last_name (ss ! i),
              r_revenue = 0, r_profit = 0, r_sales_count = 0,
              r_top_products = [],
              r_bonus = toFixed 2 (cb (int k) (int (length ?sorted)) (init_stat (ss ! i)))\<rparr>
            \<in> set out"
    using k(1) nth_mem [of k out] by (simp add: out length_rank)
  then show ?thesis by blast
qed

lemma attributed_last:
  assumes "resolves ss key j"
  shows "attributed ss j rs = filter (\<lambda>r. seller_id r = key) rs"
proof -
  from assms have j: "j < length ss" "s_id (ss ! j) = key"
    "key \<notin> set (map s_id (drop (Suc j) ss))"
    by (simp_all add: resolves_def)
  have "resolves ss k j \<longleftrightarrow> k = key" for k
  proof
    assume "resolves ss k j"
    then have "s_id (ss ! j) = k" by (simp add: resolves_def)
    with j(2) show "k = key" by simp
  next
    assume "k = key"
    with assms show "resolves ss k j" by simp
  qed
  then show ?thesis by (simp only: attributed_def)
qed

lemma dup_aggregate:
  "aggregate calculateSimpleRevenue dup_sellers dup_products dup_records = Returns dup_stats"
  by (simp add: aggregate_def dup_sellers_def dup_products_def dup_records_def dup_stats_def
      init_stat_def sellerIndex_def productIndex_def fromEntries_def process_record_def
      process_item_def get_property_def Object_prototype_keys_def count_sold_def
      calculateSimpleRevenue_def Let_def)

lemma dup_ranking:
  "map report_of (rank calculateBonusByProfit (js_sort by_profit dup_stats)) = dup_reports"
  by (simp add: dup_stats_def dup_reports_def js_sort_def by_profit_def rank_def assign_def
      report_of_def top_products_of_def Object_entries_def is_array_index_def array_index_def
      digit_value_def by_quantity_def toFixed_def calculateBonusByProfit_def)

lemma dup_call:
  "call calculateSimpleRevenue calculateBonusByProfit dup_sellers dup_products dup_records
     = Returns dup_reports"
proof -
  have "dup_sellers \<noteq> []" "dup_products \<noteq> []" "dup_records \<noteq> []"
    by (simp_all add: dup_sellers_def dup_products_def dup_records_def)
  then show ?thesis
    by (simp add: analyzeSalesData_def analyze_def dup_aggregate dup_ranking)
qed

section \<open>The two guards on keys that are no property names of \<open>Object.prototype\<close>\<close>

text \<open>
  For such a key the guards do what their comments say: a record of an unknown seller
  leaves \<open>sellerStats\<close> as it is, an item of an unknown product leaves the seller as it
  is.
\<close>

lemma productIndex_None: "productIndex ps key = None \<longleftrightarrow> key \<notin> p_sku ` set ps"
proof -
  have "fst ` set (map (\<lambda>p. (p_sku p, p)) ps) = p_sku ` set ps"
    by (induction ps) auto
  then show ?thesis
    by (simp only: productIndex_def fromEntries_None)
qed

lemma unknown_seller_skipped:
  assumes "seller_id r \<notin> s_id ` set ss" and "seller_id r \<notin> set Object_prototype_keys"
  shows "process_record cr (sellerIndex (map init_stat ss)) pidx stats r = Returns stats"
proof -
  have "sellerIndex (map init_stat ss) (seller_id r) = None"
    using assms(1) by (simp add: sellerIndex_None)
  with assms(2) show ?thesis
    by (simp add: process_record_def get_property_def)
qed

lemma unknown_sku_skipped:
  assumes "sku item \<notin> p_sku ` set ps" and "sku item \<notin> set Object_prototype_keys"
  shows "process_item cr (productIndex ps) seller item = Returns seller"
proof -
  have "productIndex ps (sku item) = None"
    using assms(1) by (simp add: productIndex_None)
  with assms(2) show ?thesis
    by (simp add: process_item_def get_property_def)
qed

section \<open>The products sold and their order\<close>

lemma set_first_seen: "set (first_seen xs) = set xs"
  by (induction xs) auto

lemma distinct_first_seen: "distinct (first_seen xs)"
  by (induction xs) (auto simp: set_first_seen)

lemma first_seen_snoc:
  "first_seen (xs @ [x]) = (if x \<in> set xs then first_seen xs else first_seen xs @ [x])"
  by (induction xs) auto

lemma update_mapped:
  "AList.update k v (map (\<lambda>k'. (k', g k')) ks) =
     (if k \<in> set ks then map (\<lambda>k'. (k', if k' = k then v else g k')) ks
      else map (\<lambda>k'. (k', g k')) ks @ [(k, v)])"
  if "distinct ks"
  using that by (induction ks) auto

lemma map_entry_mapped:
  "AList.map_entry k f (map (\<lambda>k'. (k', g k')) ks) =
     map (\<lambda>k'. (k', if k' = k then f (g k') else g k')) ks"
  if "distinct ks"
  using that by (induction ks) auto

lemma map_of_mapped:
  "map_of (map (\<lambda>k'. (k', g k')) ks) k = (if k \<in> set ks then Some (g k) else None)"
  by (induction ks) auto

lemma count_sold_mapped:
  assumes "distinct ks" and "k \<notin> set ks \<longrightarrow> g k = 0"
  shows "count_sold k q (map (\<lambda>k'. (k', g k')) ks) =
     map (\<lambda>k'. (k', if k' = k then g k' + q else g k')) (if k \<in> set ks then ks else ks @ [k])"
proof (cases "k \<in> set ks")
  case True
  have same: "map (\<lambda>k'. (k', if k' = k then 0 else g k')) ks = map (\<lambda>k'. (k', g k')) ks"
    if "g k = 0"
    using that by (intro map_cong) auto
  show ?thesis
    using True assms(1)
    by (simp add: count_sold_def map_of_mapped update_mapped map_entry_mapped same)
next
  case False
  with assms(2) have zero: "g k = 0" by simp
  have d: "distinct (ks @ [k])" using False assms(1) by simp
  have "count_sold k q (map (\<lambda>k'. (k', g k')) ks)
      = AList.map_entry k (\<lambda>v. v + q) (map (\<lambda>k'. (k', g k')) ks @ [(k, 0)])"
    using False assms(1) by (simp add: count_sold_def map_of_mapped update_mapped)
  also have "map (\<lambda>k'. (k', g k')) ks @ [(k, 0)] = map (\<lambda>k'. (k', g k')) (ks @ [k])"
    using zero by simp
  also have "AList.map_entry k (\<lambda>v. v + q) \<dots>
      = map (\<lambda>k'. (k', if k' = k then g k' + q else g k')) (ks @ [k])"
    by (rule map_entry_mapped [OF d])
  finally show ?thesis using False by simp
qed

lemma resolved_items_snoc:
  "resolved_items pidx (its @ [item]) =
     (if pidx (sku item) = None then resolved_items pidx its
      else resolved_items pidx its @ [item])"
  by (simp add: resolved_items_def)

lemma sold_quantity_snoc:
  "sold_quantity pidx (its @ [item]) k =
     (if pidx (sku item) \<noteq> None \<and> sku item = k then sold_quantity pidx its k + quantity item
      else sold_quantity pidx its k)"
  by (auto simp: sold_quantity_def resolved_items_snoc)

lemma sold_quantity_unseen:
  "k \<notin> set (map sku (resolved_items pidx its)) \<Longrightarrow> sold_quantity pidx its k = 0"
proof -
  assume "k \<notin> set (map sku (resolved_items pidx its))"
  then have "filter (\<lambda>item. sku item = k) (resolved_items pidx its) = []"
    by (auto simp: filter_empty_conv)
  then show ?thesis by (simp add: sold_quantity_def)
qed

lemma fold_item_sold:
  "fold (item_sold pidx) its [] = sold_pairs pidx its"
proof (induction its rule: rev_induct)
  case Nil
  then show ?case by (simp add: sold_pairs_def resolved_items_def)
next
  case (snoc item its)
  let ?ks = "first_seen (map sku (resolved_items pidx its))"
  show ?case
  proof (cases "pidx (sku item)")
    case None
    then have "sold_pairs pidx (its @ [item]) = sold_pairs pidx its"
      by (simp add: sold_pairs_def resolved_items_snoc sold_quantity_snoc)
    moreover have "fold (item_sold pidx) (its @ [item]) [] = fold (item_sold pidx) its []"
      using None by (simp add: item_sold_def)
    ultimately show ?thesis by (simp only: snoc.IH)
  next
    case (Some p)
    have mem: "sku item \<in> set ?ks \<longleftrightarrow> sku item \<in> set (map sku (resolved_items pidx its))"
      by (simp only: set_first_seen)
    have unseen: "sku item \<notin> set ?ks \<longrightarrow> sold_quantity pidx its (sku item) = 0"
      using sold_quantity_unseen [of "sku item" pidx its] mem by blast
    have "fold (item_sold pidx) (its @ [item]) []
        = item_sold pidx item (fold (item_sold pidx) its [])"
      by simp
    also have "\<dots> = item_sold pidx item (sold_pairs pidx its)"
      by (simp only: snoc.IH)
    also have "\<dots> = count_sold (sku item) (quantity item) (sold_pairs pidx its)"
      using Some by (simp add: item_sold_def)
    also have "\<dots> = map (\<lambda>k'. (k', if k' = sku item
                                      then sold_quantity pidx its k' + quantity item
                                      else sold_quantity pidx its k'))
                       (if sku item \<in> set ?ks then ?ks else ?ks @ [sku item])"
      unfolding sold_pairs_def
      using count_sold_mapped [of ?ks "sku item" "sold_quantity pidx its" "quantity item"]
        distinct_first_seen [of "map sku (resolved_items pidx its)"] unseen
      by blast
    also have "(if sku item \<in> set ?ks then ?ks else ?ks @ [sku item])
        = first_seen (map sku (resolved_items pidx (its @ [item])))"
      using Some mem by (simp add: resolved_items_snoc first_seen_snoc del: set_map)
    also have "(\<lambda>k'. (k', if k' = sku item
                           then sold_quantity pidx its k' + quantity item
                           else sold_quantity pidx its k'))
        = (\<lambda>k'. (k', sold_quantity pidx (its @ [item]) k'))"
      using Some by (auto simp: sold_quantity_snoc)
    finally show ?thesis by (simp add: sold_pairs_def)
  qed
qed

lemma stats_products_sold:
  assumes "aggregate cr ss ps rs = Returns stats" and "i < length ss"
  shows "products_sold (stats ! i)
       = sold_pairs (product_of ps) (concat (map items (attributed ss i rs)))"
  using aggregate_Returns(2) [OF assms]
  by (simp add: fold_record_effect_fields init_stat_def fold_item_sold)

lemma idx_aggregate:
  "aggregate calculateSimpleRevenue idx_sellers idx_products idx_records = Returns idx_stats"
  by (simp add: aggregate_def idx_sellers_def idx_products_def idx_records_def idx_stats_def
      init_stat_def sellerIndex_def productIndex_def fromEntries_def process_record_def
      process_item_def get_property_def Object_prototype_keys_def count_sold_def
      calculateSimpleRevenue_def Let_def)

lemma array_index_1: "array_index ''1'' = Some 1"
  by (simp add: array_index_def digit_value_def decimal_value_def)

lemma array_index_2: "array_index ''2'' = Some 2"
  by (simp add: array_index_def digit_value_def decimal_value_def)

lemma idx_ranking:
  "map report_of (rank calculateBonusByProfit (js_sort by_profit idx_stats)) = idx_reports"
  by (simp add: idx_stats_def idx_reports_def js_sort_def by_profit_def rank_def assign_def
      report_of_def top_products_of_def Object_entries_def is_array_index_def index_of_def
      array_index_1 array_index_2 by_quantity_def toFixed_def calculateBonusByProfit_def)

lemma idx_call:
  "call calculateSimpleRevenue calculateBonusByProfit idx_sellers idx_products idx_records
     = Returns idx_reports"
proof -
  have "idx_sellers \<noteq> []" "idx_products \<noteq> []" "idx_records \<noteq> []"
    by (simp_all add: idx_sellers_def idx_products_def idx_records_def)
  then show ?thesis
    by (simp add: analyzeSalesData_def analyze_def idx_aggregate idx_ranking)
qed

lemma idx_claimed:
  "claimed_top_products (product_of idx_products)
     (concat (map items (attributed idx_sellers 0 idx_records))) = [(''2'', 1), (''1'', 1)]"
  by (simp add: claimed_top_products_def sold_pairs_def sold_quantity_def resolved_items_def
      product_of_def attributed_def resolves_def idx_sellers_def idx_products_def
      idx_records_def)

lemma Object_entries_no_index:
  assumes "\<forall>e\<in>set sold. \<not> is_array_index (fst e)"
  shows "Object_entries sold = sold"
proof -
  have "filter (\<lambda>e. is_array_index (fst e)) sold = []"
    using assms by (simp add: filter_empty_conv)
  moreover have "filter (\<lambda>e. \<not> is_array_index (fst e)) sold = sold"
    using assms by (simp add: filter_id_conv)
  ultimately show ?thesis by (simp add: Object_entries_def)
qed

lemma Object_entries_others:
  "filter (\<lambda>e. \<not> is_array_index (fst e)) (Object_entries sold)
     = filter (\<lambda>e. \<not> is_array_index (fst e)) sold"
proof -
  have "filter (\<lambda>e. \<not> is_array_index (fst e))
          (sort_key (\<lambda>e. index_of (fst e)) (filter (\<lambda>e. is_array_index (fst e)) sold)) = []"
    by (simp add: filter_empty_conv)
  then show ?thesis by (simp add: Object_entries_def)
qed

lemma Object_entries_indexes:
  "filter (\<lambda>e. is_array_index (fst e)) (Object_entries sold)
     = sort_key (\<lambda>e. index_of (fst e)) (filter (\<lambda>e. is_array_index (fst e)) sold)"
proof -
  have "filter (\<lambda>e. is_array_index (fst e))
          (sort_key (\<lambda>e. index_of (fst e)) (filter (\<lambda>e. is_array_index (fst e)) sold))
      = sort_key (\<lambda>e. index_of (fst e)) (filter (\<lambda>e. is_array_index (fst e)) sold)"
    by (simp add: filter_id_conv)
  then show ?thesis by (simp add: Object_entries_def)
qed

lemma Object_entries_split:
  "Object_entries sold
     = filter (\<lambda>e. is_array_index (fst e)) (Object_entries sold)
       @ filter (\<lambda>e. \<not> is_array_index (fst e)) (Object_entries sold)"
  by (simp only: Object_entries_indexes Object_entries_others) (simp add: Object_entries_def)

lemma Object_entries_sorted:
  "sorted (map (\<lambda>e. index_of (fst e))
             (filter (\<lambda>e. is_array_index (fst e)) (Object_entries sold)))"
  by (simp only: Object_entries_indexes sorted_sort_key)

lemma mset_Object_entries: "mset (Object_entries sold) = mset sold"
  by (simp add: Object_entries_def)

lemma top_products_of_sort_key:
  "top_products_of sold = take 10 (sort_key (\<lambda>e. - snd e) (Object_entries sold))"
  by (simp add: top_products_of_def js_sort_by_quantity)

lemma sorted_wrt_take: "sorted_wrt R xs \<Longrightarrow> sorted_wrt R (take n xs)"
  by (metis append_take_drop_id sorted_wrt_append)

lemma top_products_of_sorted: "sorted_wrt (\<lambda>a b. snd b \<le> snd a) (top_products_of sold)"
proof -
  have "sorted (map (\<lambda>e. - snd e) (sort_key (\<lambda>e. - snd e) (Object_entries sold)))"
    by (rule sorted_sort_key)
  then have "sorted_wrt (\<lambda>a b. snd b \<le> snd a) (sort_key (\<lambda>e. - snd e) (Object_entries sold))"
    by (simp add: sorted_wrt_map)
  then show ?thesis
    unfolding top_products_of_sort_key by (rule sorted_wrt_take)
qed

lemma twelve_top: "top_products_of twelve_sold = take 10 twelve_sold"
  by (simp add: top_products_of_def Object_entries_def is_array_index_def array_index_def
      digit_value_def js_sort_def by_quantity_def twelve_sold_def)

lemma idx_entries: "Object_entries [(''2'', 1::real), (''1'', 1)] = [(''1'', 1), (''2'', 1)]"
  by (simp add: Object_entries_def is_array_index_def index_of_def array_index_1 array_index_2)

lemma ex_no_index: "\<forall>e\<in>set [(''b'', 1::real)]. \<not> is_array_index (fst e)"
  by (simp add: is_array_index_def array_index_def digit_value_def)

section \<open>The default bonus strategy\<close>

text \<open>
  C1. With \<open>calculateBonusByProfit\<close>, for every seller aggregate, every seller count
  \<open>n \<ge> 1\<close> and every rank index: index 0 yields 15% of the seller's profit, indexes 1
  and 2 yield 10%, index \<open>n - 1\<close> yields 0 when it is none of 0, 1, 2, and every other
  index yields 5%. The branches are tried in this order, so with one seller index 0
  yields 15%, and five sellers with profits 1000, 800, 600, 400, 200 get the bonuses
  150, 80, 60, 20, 0.
\<close>

theorem calculateBonusByProfit_branches:
  "1 \<le> n \<Longrightarrow>
     calculateBonusByProfit 0 n s = profit s * 15 / 100
   \<and> calculateBonusByProfit 1 n s = profit s * 10 / 100
   \<and> calculateBonusByProfit 2 n s = profit s * 10 / 100
   \<and> (i \<notin> {0, 1, 2} \<longrightarrow> i = n - 1 \<longrightarrow> calculateBonusByProfit i n s = 0)
   \<and> (i \<notin> {0, 1, 2} \<longrightarrow> i \<noteq> n - 1 \<longrightarrow> calculateBonusByProfit i n s = profit s * 5 / 100)
   \<and> calculateBonusByProfit 0 1 s = profit s * 15 / 100
   \<and> map (\<lambda>(k, p). calculateBonusByProfit k 5 (t\<lparr>profit := p\<rparr>))
         [(0, 1000), (1, 800), (2, 600), (3, 400), (4, 200)] = [150, 80, 60, 20, 0]"
  by (simp add: calculateBonusByProfit_def)

theorem calculateBonusByProfit_branches_witness:
  "(1::int) \<le> 2
   \<and> calculateBonusByProfit 0 2
        \<lparr>stat_id = ''a'', stat_name = ''A B'', revenue = 10, profit = 200,
         sales_count = 1, products_sold = []\<rparr> = 30
   \<and> calculateBonusByProfit 1 2
        \<lparr>stat_id = ''a'', stat_name = ''A B'', revenue = 10, profit = 200,
         sales_count = 1, products_sold = []\<rparr> = 20
   \<and> calculateBonusByProfit 7 8
        \<lparr>stat_id = ''a'', stat_name = ''A B'', revenue = 10, profit = 200,
         sales_count = 1, products_sold = []\<rparr> = 0
   \<and> calculateBonusByProfit 7 9
        \<lparr>stat_id = ''a'', stat_name = ''A B'', revenue = 10, profit = 200,
         sales_count = 1, products_sold = []\<rparr> = 10"
  using calculateBonusByProfit_branches [of 2
      "\<lparr>stat_id = ''a'', stat_name = ''A B'', revenue = 10, profit = 200,
        sales_count = 1, products_sold = []\<rparr>" 7
      "\<lparr>stat_id = ''a'', stat_name = ''A B'', revenue = 10, profit = 200,
        sales_count = 1, products_sold = []\<rparr>"]
    calculateBonusByProfit_branches [of 8
      "\<lparr>stat_id = ''a'', stat_name = ''A B'', revenue = 10, profit = 200,
        sales_count = 1, products_sold = []\<rparr>" 7
      "\<lparr>stat_id = ''a'', stat_name = ''A B'', revenue = 10, profit = 200,
        sales_count = 1, products_sold = []\<rparr>"]
    calculateBonusByProfit_branches [of 9
      "\<lparr>stat_id = ''a'', stat_name = ''A B'', revenue = 10, profit = 200,
        sales_count = 1, products_sold = []\<rparr>" 7
      "\<lparr>stat_id = ''a'', stat_name = ''A B'', revenue = 10, profit = 200,
        sales_count = 1, products_sold = []\<rparr>"]
  by simp

section \<open>References that resolve to nothing\<close>

text \<open>
  C2. A purchase record whose \<open>seller_id\<close> is the id of no input seller should add
  nothing to any output seller, a line item whose \<open>sku\<close> is the sku of no input product
  should be skipped alone, and neither should raise. The two guards of the source test
  \<open>sellerIndex[record.seller_id]\<close> and \<open>productIndex[item.sku]\<close> for falsiness, and the
  two indexes inherit from \<open>Object.prototype\<close>: with the seller id \<open>constructor\<close> the
  record is not skipped and its first resolved item raises a \<open>TypeError\<close>; with the sku
  \<open>toString\<close> the item is not skipped and the seller's profit is no longer a number.
\<close>

theorem builtin_name_not_skipped:
  "''constructor'' \<notin> s_id ` set ex_sellers
   \<and> call calculateSimpleRevenue calculateBonusByProfit ex_sellers ex_products builtin_records
       = Throws TypeError
   \<and> ''toString'' \<notin> p_sku ` set ex_products
   \<and> call calculateSimpleRevenue calculateBonusByProfit ex_sellers ex_products
        builtin_sku_records = NonNumeric"
proof -
  have "aggregate calculateSimpleRevenue ex_sellers ex_products builtin_records = Throws TypeError"
    by (simp add: aggregate_def ex_sellers_def ex_products_def builtin_records_def
        init_stat_def sellerIndex_def productIndex_def fromEntries_def process_record_def
        process_item_builtin_def get_property_def Object_prototype_keys_def Let_def)
  moreover have "aggregate calculateSimpleRevenue ex_sellers ex_products builtin_sku_records
      = NonNumeric"
    by (simp add: aggregate_def ex_sellers_def ex_products_def builtin_sku_records_def
        init_stat_def sellerIndex_def productIndex_def fromEntries_def process_record_def
        process_item_def get_property_def Object_prototype_keys_def Let_def)
  moreover have "builtin_records \<noteq> []" "builtin_sku_records \<noteq> []"
    by (simp_all add: builtin_records_def builtin_sku_records_def)
  moreover have "''constructor'' \<notin> s_id ` set ex_sellers" "''toString'' \<notin> p_sku ` set ex_products"
    by (simp_all add: ex_sellers_def ex_products_def)
  ultimately show ?thesis
    by (simp add: analyzeSalesData_def analyze_def ex_nonempty)
qed

section \<open>Profit\<close>

text \<open>
  C3. For every line item whose sku resolves to a product, in a record attributed to a
  seller, the loop adds to that seller's running profit exactly
  \<open>calculateRevenue(item, product) - product.purchase_price * item.quantity\<close>, so the
  profit of a seller is the sum of these differences over the resolved items of its
  records, with no other arithmetic on the strategy's result; and the default strategy
  \<open>calculateSimpleRevenue\<close> returns
  \<open>item.sale_price * item.quantity * (1 - item.discount / 100)\<close>.
\<close>

theorem profit_adds_revenue_minus_cost:
  "(process_item calcRevenue (productIndex ps) seller item = Returns seller' \<longrightarrow>
      product_of ps (sku item) = Some product \<longrightarrow>
      profit seller' = profit seller
         + (calcRevenue item product - purchase_price product * quantity item))
   \<and> (call calcRevenue calcBonus ss ps rs = Returns out \<longrightarrow>
        (\<exists>stats. aggregate calcRevenue ss ps rs = Returns stats
           \<and> (\<forall>i<length ss. profit (stats ! i)
                  = sum_list (map (\<lambda>r. sum_list (map (item_profit calcRevenue (product_of ps))
                                                   (items r)))
                               (attributed ss i rs))))
        \<and> mset (map (\<lambda>r. (r_seller_id r, r_profit r)) out)
            = mset (map (\<lambda>i. (s_id (ss ! i),
                  toFixed 2 (sum_list (map (\<lambda>r. sum_list (map (item_profit calcRevenue (product_of ps))
                                                           (items r)))
                                        (attributed ss i rs)))))
                     [0..<length ss]))
   \<and> calculateSimpleRevenue item product
        = sale_price item * quantity item * (1 - discount item / 100)
   \<and> (ss \<noteq> [] \<longrightarrow> ps \<noteq> [] \<longrightarrow> rs \<noteq> [] \<longrightarrow> plain_keys rs \<longrightarrow>
        (\<exists>out. call calcRevenue calcBonus ss ps rs = Returns out))"
proof -
  have step: "process_item calcRevenue (productIndex ps) seller item = Returns seller' \<longrightarrow>
      product_of ps (sku item) = Some product \<longrightarrow>
      profit seller' = profit seller
         + (calcRevenue item product - purchase_price product * quantity item)"
    using process_item_profit by blast
  have total: "(\<exists>stats. aggregate calcRevenue ss ps rs = Returns stats
           \<and> (\<forall>i<length ss. profit (stats ! i)
                  = sum_list (map (\<lambda>r. sum_list (map (item_profit calcRevenue (product_of ps))
                                                   (items r)))
                               (attributed ss i rs))))
        \<and> mset (map (\<lambda>r. (r_seller_id r, r_profit r)) out)
            = mset (map (\<lambda>i. (s_id (ss ! i),
                  toFixed 2 (sum_list (map (\<lambda>r. sum_list (map (item_profit calcRevenue (product_of ps))
                                                           (items r)))
                                        (attributed ss i rs)))))
                     [0..<length ss])"
    if ret: "call calcRevenue calcBonus ss ps rs = Returns out"
  proof -
    from call_Returns [OF ret] obtain stats where
      agg: "aggregate calcRevenue ss ps rs = Returns stats" and
      out: "out = map report_of (rank calcBonus (js_sort by_profit stats))"
      by blast
    have "mset (map (\<lambda>r. (r_seller_id r, r_profit r)) out)
        = mset (map (\<lambda>s. (stat_id s, toFixed 2 (profit s))) stats)"
      unfolding out by (rule reports_mset) (simp add: report_of_def assign_def)
    also have "map (\<lambda>s. (stat_id s, toFixed 2 (profit s))) stats
        = map (\<lambda>i. (s_id (ss ! i),
                  toFixed 2 (sum_list (map (\<lambda>r. sum_list (map (item_profit calcRevenue (product_of ps))
                                                           (items r)))
                                        (attributed ss i rs)))))
                     [0..<length ss]"
      by (simp add: stats_by_position [OF agg] fold_record_effect_fields init_stat_def)
    finally show ?thesis
      using agg stats_profit [OF agg] by blast
  qed
  have dflt: "calculateSimpleRevenue item product
        = sale_price item * quantity item * (1 - discount item / 100)"
    by (simp add: calculateSimpleRevenue_def)
  have returns: "\<exists>out. call calcRevenue calcBonus ss ps rs = Returns out"
    if "ss \<noteq> []" "ps \<noteq> []" "rs \<noteq> []" "plain_keys rs"
    using that by (rule call_plain_Returns)
  from step total dflt returns show ?thesis by blast
qed

theorem profit_adds_revenue_minus_cost_witness:
  "process_item calculateSimpleRevenue (productIndex ex_products)
     \<lparr>stat_id = ''s1'', stat_name = ''Ann Lee'', revenue = 100, profit = 0,
      sales_count = 1, products_sold = []\<rparr>
     \<lparr>sku = ''a'', sale_price = 15, quantity = 2, discount = 10\<rparr>
   = Returns \<lparr>stat_id = ''s1'', stat_name = ''Ann Lee'', revenue = 100, profit = 7,
              sales_count = 1, products_sold = [(''a'', 2)]\<rparr>
   \<and> product_of ex_products ''a'' = Some \<lparr>p_sku = ''a'', purchase_price = 10\<rparr>
   \<and> (7::real) = 0 + (calculateSimpleRevenue
                        \<lparr>sku = ''a'', sale_price = 15, quantity = 2, discount = 10\<rparr>
                        \<lparr>p_sku = ''a'', purchase_price = 10\<rparr> - 10 * 2)
   \<and> call calculateSimpleRevenue calculateBonusByProfit ex_sellers ex_products ex_records
       = Returns ex_reports
   \<and> mset (map (\<lambda>r. (r_seller_id r, r_profit r)) ex_reports)
       = mset (map (\<lambda>i. (s_id (ex_sellers ! i),
             toFixed 2 (sum_list (map (\<lambda>r. sum_list (map (item_profit calculateSimpleRevenue
                                                            (product_of ex_products)) (items r)))
                                   (attributed ex_sellers i ex_records)))))
                [0..<length ex_sellers])
   \<and> map (\<lambda>r. (r_seller_id r, r_profit r)) ex_reports = [(''s2'', 10), (''s1'', 7)]"
  using profit_adds_revenue_minus_cost [where calcRevenue = calculateSimpleRevenue
      and ps = ex_products
      and seller = "\<lparr>stat_id = ''s1'', stat_name = ''Ann Lee'', revenue = 100, profit = 0,
        sales_count = 1, products_sold = []\<rparr>"
      and item = "\<lparr>sku = ''a'', sale_price = 15, quantity = 2, discount = 10\<rparr>"
      and seller' = "\<lparr>stat_id = ''s1'', stat_name = ''Ann Lee'', revenue = 100, profit = 7,
        sales_count = 1, products_sold = [(''a'', 2)]\<rparr>"
      and product = "\<lparr>p_sku = ''a'', purchase_price = 10\<rparr>"
      and calcBonus = calculateBonusByProfit and ss = ex_sellers and rs = ex_records
      and out = ex_reports]
    ex_item ex_product_of ex_call
  by (simp add: ex_reports_def)

section \<open>Order of the reports\<close>



section \<open>Top products\<close>

text \<open>
  C5, as amended. For every output seller \<open>top_products\<close> is \<open>Object.entries\<close> of the
  seller's \<open>products_sold\<close> as \<open>{sku, quantity}\<close> pairs, sorted by descending quantity
  with ties kept in the order of \<open>Object.entries\<close>, cut to the first 10. That order puts
  the skus that are array indexes first, in ascending numeric order, and the other skus
  after them in the order in which they were first met during aggregation; when no sku
  is an array index it is the first-encounter order. Twelve skus sold in strictly
  decreasing quantity give the first ten of them.
\<close>

theorem top_products_in_entries_order:
  "(call calcRevenue calcBonus ss ps rs = Returns out \<longrightarrow>
      (\<exists>stats. aggregate calcRevenue ss ps rs = Returns stats
            \<and> length out = length stats
            \<and> (\<forall>i<length ss. products_sold (stats ! i)
                   = sold_pairs (product_of ps) (concat (map items (attributed ss i rs))))
            \<and> (\<forall>k<length out.
                  r_top_products (out ! k)
                    = take 10 (sort_key (\<lambda>e. - snd e)
                         (Object_entries (products_sold (js_sort by_profit stats ! k))))
                \<and> length (r_top_products (out ! k)) \<le> 10
                \<and> sorted_wrt (\<lambda>a b. snd b \<le> snd a) (r_top_products (out ! k))
                \<and> ((\<forall>e\<in>set (products_sold (js_sort by_profit stats ! k)).
                        \<not> is_array_index (fst e)) \<longrightarrow>
                     r_top_products (out ! k)
                       = take 10 (sort_key (\<lambda>e. - snd e)
                            (products_sold (js_sort by_profit stats ! k)))))))
   \<and> (\<forall>sold :: (string \<times> number) list.
             mset (Object_entries sold) = mset sold
           \<and> Object_entries sold
               = filter (\<lambda>e. is_array_index (fst e)) (Object_entries sold)
                 @ filter (\<lambda>e. \<not> is_array_index (fst e)) (Object_entries sold)
           \<and> sorted (map (\<lambda>e. index_of (fst e))
                        (filter (\<lambda>e. is_array_index (fst e)) (Object_entries sold)))
           \<and> filter (\<lambda>e. \<not> is_array_index (fst e)) (Object_entries sold)
               = filter (\<lambda>e. \<not> is_array_index (fst e)) sold
           \<and> (\<forall>q. filter (\<lambda>e. snd e = q) (sort_key (\<lambda>e. - snd e) (Object_entries sold))
                    = filter (\<lambda>e. snd e = q) (Object_entries sold)))
   \<and> top_products_of twelve_sold = take 10 twelve_sold
   \<and> (ss \<noteq> [] \<longrightarrow> ps \<noteq> [] \<longrightarrow> rs \<noteq> [] \<longrightarrow> plain_keys rs \<longrightarrow>
        (\<exists>out. call calcRevenue calcBonus ss ps rs = Returns out))"
proof -
  have main: "(\<exists>stats. aggregate calcRevenue ss ps rs = Returns stats
            \<and> length out = length stats
            \<and> (\<forall>i<length ss. products_sold (stats ! i)
                   = sold_pairs (product_of ps) (concat (map items (attributed ss i rs))))
            \<and> (\<forall>k<length out.
                  r_top_products (out ! k)
                    = take 10 (sort_key (\<lambda>e. - snd e)
                         (Object_entries (products_sold (js_sort by_profit stats ! k))))
                \<and> length (r_top_products (out ! k)) \<le> 10
                \<and> sorted_wrt (\<lambda>a b. snd b \<le> snd a) (r_top_products (out ! k))
                \<and> ((\<forall>e\<in>set (products_sold (js_sort by_profit stats ! k)).
                        \<not> is_array_index (fst e)) \<longrightarrow>
                     r_top_products (out ! k)
                       = take 10 (sort_key (\<lambda>e. - snd e)
                            (products_sold (js_sort by_profit stats ! k))))))"
    if ret: "call calcRevenue calcBonus ss ps rs = Returns out"
  proof -
    from call_Returns [OF ret] obtain stats where
      agg: "aggregate calcRevenue ss ps rs = Returns stats" and
      out: "out = map report_of (rank calcBonus (js_sort by_profit stats))"
      by blast
    let ?sorted = "js_sort by_profit stats"
    have len: "length ?sorted = length stats"
      by (simp add: js_sort_by_profit)
    have a: "length out = length stats"
      by (simp add: out length_rank len)
    have b: "\<forall>i<length ss. products_sold (stats ! i)
        = sold_pairs (product_of ps) (concat (map items (attributed ss i rs)))"
      using stats_products_sold [OF agg] by blast
    have c: "r_top_products (out ! k)
               = take 10 (sort_key (\<lambda>e. - snd e) (Object_entries (products_sold (?sorted ! k))))
           \<and> length (r_top_products (out ! k)) \<le> 10
           \<and> sorted_wrt (\<lambda>a b. snd b \<le> snd a) (r_top_products (out ! k))
           \<and> ((\<forall>e\<in>set (products_sold (?sorted ! k)). \<not> is_array_index (fst e)) \<longrightarrow>
                r_top_products (out ! k)
                  = take 10 (sort_key (\<lambda>e. - snd e) (products_sold (?sorted ! k))))"
      if k: "k < length out" for k
    proof -
      have tp: "r_top_products (out ! k) = top_products_of (products_sold (?sorted ! k))"
        using k by (simp add: out length_rank nth_rank len report_of_def assign_def)
      have "length (top_products_of (products_sold (?sorted ! k))) \<le> 10"
        by (simp add: top_products_of_def)
      moreover have "(\<forall>e\<in>set (products_sold (?sorted ! k)). \<not> is_array_index (fst e)) \<longrightarrow>
          top_products_of (products_sold (?sorted ! k))
            = take 10 (sort_key (\<lambda>e. - snd e) (products_sold (?sorted ! k)))"
        by (simp add: top_products_of_sort_key Object_entries_no_index)
      ultimately show ?thesis
        unfolding tp using top_products_of_sort_key top_products_of_sorted by blast
    qed
    from agg a b c have first: "\<exists>stats. aggregate calcRevenue ss ps rs = Returns stats
              \<and> length out = length stats
              \<and> (\<forall>i<length ss. products_sold (stats ! i)
                     = sold_pairs (product_of ps) (concat (map items (attributed ss i rs))))
              \<and> (\<forall>k<length out.
                    r_top_products (out ! k)
                      = take 10 (sort_key (\<lambda>e. - snd e)
                           (Object_entries (products_sold (js_sort by_profit stats ! k))))
                  \<and> length (r_top_products (out ! k)) \<le> 10
                  \<and> sorted_wrt (\<lambda>a b. snd b \<le> snd a) (r_top_products (out ! k))
                  \<and> ((\<forall>e\<in>set (products_sold (js_sort by_profit stats ! k)).
                          \<not> is_array_index (fst e)) \<longrightarrow>
                       r_top_products (out ! k)
                         = take 10 (sort_key (\<lambda>e. - snd e)
                              (products_sold (js_sort by_profit stats ! k)))))"
      by blast
    from first show ?thesis .
  qed
  have second: "mset (Object_entries sold) = mset sold
           \<and> Object_entries sold
               = filter (\<lambda>e. is_array_index (fst e)) (Object_entries sold)
                 @ filter (\<lambda>e. \<not> is_array_index (fst e)) (Object_entries sold)
           \<and> sorted (map (\<lambda>e. index_of (fst e))
                        (filter (\<lambda>e. is_array_index (fst e)) (Object_entries sold)))
           \<and> filter (\<lambda>e. \<not> is_array_index (fst e)) (Object_entries sold)
               = filter (\<lambda>e. \<not> is_array_index (fst e)) sold
           \<and> (\<forall>q. filter (\<lambda>e. snd e = q) (sort_key (\<lambda>e. - snd e) (Object_entries sold))
                    = filter (\<lambda>e. snd e = q) (Object_entries sold))"
    for sold :: "(string \<times> number) list"
  proof -
    have "filter (\<lambda>e. snd e = q) (sort_key (\<lambda>e. - snd e) (Object_entries sold))
        = filter (\<lambda>e. snd e = q) (Object_entries sold)" for q
      using sort_key_stable [of "\<lambda>e. - snd e" "- q" "Object_entries sold"] by simp
    then show ?thesis
      using mset_Object_entries [of sold] Object_entries_split [of sold]
        Object_entries_sorted [of sold] Object_entries_others [of sold]
      by blast
  qed
  have returns: "\<exists>out. call calcRevenue calcBonus ss ps rs = Returns out"
    if "ss \<noteq> []" "ps \<noteq> []" "rs \<noteq> []" "plain_keys rs"
    using that by (rule call_plain_Returns)
  from main second twelve_top returns show ?thesis by blast
qed

theorem top_products_in_entries_order_witness:
  "call calculateSimpleRevenue calculateBonusByProfit idx_sellers idx_products idx_records
     = Returns idx_reports
   \<and> aggregate calculateSimpleRevenue idx_sellers idx_products idx_records = Returns idx_stats
   \<and> products_sold (idx_stats ! 0) = [(''2'', 1), (''1'', 1)]
   \<and> sold_pairs (product_of idx_products)
        (concat (map items (attributed idx_sellers 0 idx_records))) = [(''2'', 1), (''1'', 1)]
   \<and> Object_entries (products_sold (js_sort by_profit idx_stats ! 0)) = [(''1'', 1), (''2'', 1)]
   \<and> r_top_products (idx_reports ! 0) = [(''1'', 1), (''2'', 1)]
   \<and> call calculateSimpleRevenue calculateBonusByProfit ex_sellers ex_products ex_records
       = Returns ex_reports
   \<and> products_sold (js_sort by_profit ex_stats ! 0) = [(''b'', 1)]
   \<and> list_all (\<lambda>e. \<not> is_array_index (fst e)) (products_sold (js_sort by_profit ex_stats ! 0))
   \<and> r_top_products (ex_reports ! 0)
       = take 10 (sort_key (\<lambda>e. - snd e) (products_sold (js_sort by_profit ex_stats ! 0)))"
proof -
  have s0: "js_sort by_profit idx_stats ! 0 = idx_stats ! 0"
    by (simp add: idx_stats_def js_sort_def)
  have p0: "products_sold (idx_stats ! 0) = [(''2'', 1), (''1'', 1)]"
    by (simp add: idx_stats_def)
  from top_products_in_entries_order [THEN conjunct1, rule_format, OF idx_call] obtain stats where
    st: "aggregate calculateSimpleRevenue idx_sellers idx_products idx_records = Returns stats"
      "\<forall>i<length idx_sellers. products_sold (stats ! i)
         = sold_pairs (product_of idx_products)
             (concat (map items (attributed idx_sellers i idx_records)))"
    by blast
  from st(1) idx_aggregate have "stats = idx_stats" by simp
  with st(2) have "products_sold (idx_stats ! 0)
      = sold_pairs (product_of idx_products)
          (concat (map items (attributed idx_sellers 0 idx_records)))"
    by (simp add: idx_sellers_def)
  with p0 have sp: "sold_pairs (product_of idx_products)
      (concat (map items (attributed idx_sellers 0 idx_records))) = [(''2'', 1), (''1'', 1)]"
    by simp
  have oe: "Object_entries (products_sold (js_sort by_profit idx_stats ! 0))
      = [(''1'', 1), (''2'', 1)]"
    by (simp only: s0 p0 idx_entries)
  have tp: "r_top_products (idx_reports ! 0) = [(''1'', 1), (''2'', 1)]"
    by (simp add: idx_reports_def)
  have e0: "products_sold (js_sort by_profit ex_stats ! 0) = [(''b'', 1)]"
    by (simp add: ex_stats_def js_sort_def by_profit_def)
  have ni: "\<forall>e\<in>set (products_sold (js_sort by_profit ex_stats ! 0)). \<not> is_array_index (fst e)"
    unfolding e0 by (rule ex_no_index)
  from top_products_in_entries_order [THEN conjunct1, rule_format, OF ex_call] obtain stats' where
    st': "aggregate calculateSimpleRevenue ex_sellers ex_products ex_records = Returns stats'"
      "\<forall>k<length ex_reports.
         (\<forall>e\<in>set (products_sold (js_sort by_profit stats' ! k)). \<not> is_array_index (fst e)) \<longrightarrow>
         r_top_products (ex_reports ! k)
           = take 10 (sort_key (\<lambda>e. - snd e) (products_sold (js_sort by_profit stats' ! k)))"
    by blast
  from st'(1) ex_aggregate have eq: "stats' = ex_stats" by simp
  have "0 < length ex_reports" by (simp add: ex_reports_def)
  with st'(2) ni have et: "r_top_products (ex_reports ! 0)
      = take 10 (sort_key (\<lambda>e. - snd e) (products_sold (js_sort by_profit ex_stats ! 0)))"
    unfolding eq by blast
  from ni have la: "list_all (\<lambda>e. \<not> is_array_index (fst e))
      (products_sold (js_sort by_profit ex_stats ! 0))"
    by (simp only: list_all_iff)
  from idx_call idx_aggregate p0 sp oe tp ex_call e0 la et show ?thesis by blast
qed

text \<open>
  As first stated, with ties in first-encounter order for every sku, the property fails:
  a seller who sells sku 2 and then sku 1, one of each, gets sku 1 listed first.
\<close>

theorem first_encounter_order_counterexample:
  "call calculateSimpleRevenue calculateBonusByProfit idx_sellers idx_products idx_records
     = Returns idx_reports
   \<and> r_top_products (idx_reports ! 0) = [(''1'', 1), (''2'', 1)]
   \<and> claimed_top_products (product_of idx_products)
        (concat (map items (attributed idx_sellers 0 idx_records))) = [(''2'', 1), (''1'', 1)]
   \<and> r_top_products (idx_reports ! 0)
       \<noteq> claimed_top_products (product_of idx_products)
           (concat (map items (attributed idx_sellers 0 idx_records)))"
  by (simp add: idx_call idx_claimed) (simp add: idx_reports_def)

section \<open>Validation\<close>

text \<open>
  C6. \<open>analyzeSalesData\<close> should throw before any aggregation, with no output, whenever
  the dataset is absent, one of \<open>sellers\<close>, \<open>products\<close>, \<open>purchase_records\<close> is not an
  array or is empty, the options are absent or not an object, or one of
  \<open>calculateRevenue\<close>, \<open>calculateBonus\<close> is missing or not callable; and for an input
  that passes these checks, with well-formed records, the call should complete without
  raising. The code keeps the first half (\<open>validation_checks\<close>) and breaks the second: a
  dataset of three non-empty arrays with the two default strategies, whose one record is
  well-formed and names the seller \<open>constructor\<close>, passes the three checks, so none of the
  three validation errors is thrown, and then raises a \<open>TypeError\<close> inside the loop. A
  dangling seller id is well-formed input, to be dropped silently; the guard misses the
  keys inherited from \<open>Object.prototype\<close>, the defect stated under C2.
\<close>

theorem checked_call_raises:
  "ex_sellers \<noteq> [] \<and> ex_products \<noteq> [] \<and> builtin_records \<noteq> []
   \<and> analyzeSalesData
         (Some \<lparr>sellers = Array ex_sellers, products = Array ex_products,
                 purchase_records = Array builtin_records\<rparr>)
         (Options (Callable calculateSimpleRevenue) (Callable calculateBonusByProfit))
       = Throws TypeError
   \<and> analyzeSalesData
         (Some \<lparr>sellers = Array ex_sellers, products = Array ex_products,
                 purchase_records = Array builtin_records\<rparr>)
         (Options (Callable calculateSimpleRevenue) (Callable calculateBonusByProfit))
       \<noteq> Throws InvalidData
   \<and> analyzeSalesData
         (Some \<lparr>sellers = Array ex_sellers, products = Array ex_products,
                 purchase_records = Array builtin_records\<rparr>)
         (Options (Callable calculateSimpleRevenue) (Callable calculateBonusByProfit))
       \<noteq> Throws InvalidOptions
   \<and> analyzeSalesData
         (Some \<lparr>sellers = Array ex_sellers, products = Array ex_products,
                 purchase_records = Array builtin_records\<rparr>)
         (Options (Callable calculateSimpleRevenue) (Callable calculateBonusByProfit))
       \<noteq> Throws MissingFunctions"
proof -
  have ne: "builtin_records \<noteq> []"
    by (simp add: builtin_records_def)
  have "aggregate calculateSimpleRevenue ex_sellers ex_products builtin_records
      = Throws TypeError"
    by (simp add: aggregate_def ex_sellers_def ex_products_def builtin_records_def
        init_stat_def sellerIndex_def productIndex_def fromEntries_def process_record_def
        process_item_builtin_def get_property_def Object_prototype_keys_def Let_def)
  then have "analyzeSalesData
         (Some \<lparr>sellers = Array ex_sellers, products = Array ex_products,
                 purchase_records = Array builtin_records\<rparr>)
         (Options (Callable calculateSimpleRevenue) (Callable calculateBonusByProfit))
       = Throws TypeError"
    by (simp add: analyzeSalesData_def analyze_def ex_nonempty ne)
  with ne ex_nonempty show ?thesis by simp
qed

section \<open>Rounding of the reported amounts\<close>

text \<open>
  C7. In every report \<open>revenue\<close>, \<open>profit\<close> and \<open>bonus\<close> are numbers, the accumulated
  revenue and profit and the bonus the strategy returned, each rounded to two decimals
  by \<open>toFixed(2)\<close>: the multiple of 1/100 nearest to the value, the one farther from zero
  when two are equally near (so 33.333... becomes 33.33); \<open>sales_count\<close> and
  \<open>top_products\<close> pass through unchanged.
\<close>

theorem reports_round_to_two_decimals:
  "(call calcRevenue calcBonus ss ps rs = Returns out \<longrightarrow>
      (\<exists>stats. aggregate calcRevenue ss ps rs = Returns stats
            \<and> length out = length stats
            \<and> (\<forall>k<length out.
                  r_revenue (out ! k) = toFixed 2 (revenue (js_sort by_profit stats ! k))
                \<and> r_profit (out ! k) = toFixed 2 (profit (js_sort by_profit stats ! k))
                \<and> r_bonus (out ! k)
                    = toFixed 2 (calcBonus (int k) (int (length stats))
                                  (js_sort by_profit stats ! k))
                \<and> r_sales_count (out ! k) = sales_count (js_sort by_profit stats ! k)
                \<and> r_top_products (out ! k)
                    = top_products (rank calcBonus (js_sort by_profit stats) ! k))))
   \<and> (\<forall>x r. toFixed 2 x = r \<longleftrightarrow>
          (\<exists>n::int. r = of_int n / 100) \<and> \<bar>r - x\<bar> \<le> 1 / 200
          \<and> (\<bar>r - x\<bar> = 1 / 200 \<longrightarrow> \<bar>x\<bar> < \<bar>r\<bar>))
   \<and> toFixed 2 (100 / 3) = 3333 / 100
   \<and> (ss \<noteq> [] \<longrightarrow> ps \<noteq> [] \<longrightarrow> rs \<noteq> [] \<longrightarrow> plain_keys rs \<longrightarrow>
        (\<exists>out. call calcRevenue calcBonus ss ps rs = Returns out))"
proof -
  have main: "\<exists>stats. aggregate calcRevenue ss ps rs = Returns stats
            \<and> length out = length stats
            \<and> (\<forall>k<length out.
                  r_revenue (out ! k) = toFixed 2 (revenue (js_sort by_profit stats ! k))
                \<and> r_profit (out ! k) = toFixed 2 (profit (js_sort by_profit stats ! k))
                \<and> r_bonus (out ! k)
                    = toFixed 2 (calcBonus (int k) (int (length stats))
                                  (js_sort by_profit stats ! k))
                \<and> r_sales_count (out ! k) = sales_count (js_sort by_profit stats ! k)
                \<and> r_top_products (out ! k)
                    = top_products (rank calcBonus (js_sort by_profit stats) ! k))"
    if ret: "call calcRevenue calcBonus ss ps rs = Returns out"
  proof -
    from call_Returns [OF ret] obtain stats where
      agg: "aggregate calcRevenue ss ps rs = Returns stats" and
      out: "out = map report_of (rank calcBonus (js_sort by_profit stats))"
      by blast
    have len: "length (js_sort by_profit stats) = length stats"
      by (simp add: js_sort_by_profit)
    have "length out = length stats
            \<and> (\<forall>k<length out.
                  r_revenue (out ! k) = toFixed 2 (revenue (js_sort by_profit stats ! k))
                \<and> r_profit (out ! k) = toFixed 2 (profit (js_sort by_profit stats ! k))
                \<and> r_bonus (out ! k)
                    = toFixed 2 (calcBonus (int k) (int (length stats))
                                  (js_sort by_profit stats ! k))
                \<and> r_sales_count (out ! k) = sales_count (js_sort by_profit stats ! k)
                \<and> r_top_products (out ! k)
                    = top_products (rank calcBonus (js_sort by_profit stats) ! k))"
      by (simp add: out length_rank nth_rank len report_of_def assign_def)
    with agg show ?thesis by blast
  qed
  have third: "toFixed 2 (100 / 3) = 3333 / 100"
    by (simp add: toFixed_def)
  have returns: "\<exists>out. call calcRevenue calcBonus ss ps rs = Returns out"
    if "ss \<noteq> []" "ps \<noteq> []" "rs \<noteq> []" "plain_keys rs"
    using that by (rule call_plain_Returns)
  from main toFixed2_iff third returns show ?thesis by blast
qed

theorem reports_round_to_two_decimals_witness:
  "call calculateSimpleRevenue calculateBonusByProfit ex_sellers ex_products ex_records
     = Returns ex_reports
   \<and> aggregate calculateSimpleRevenue ex_sellers ex_products ex_records = Returns ex_stats
   \<and> map revenue (js_sort by_profit ex_stats) = [100 / 3, 100]
   \<and> map r_revenue ex_reports = [3333 / 100, 100]
   \<and> (\<exists>n::int. (3333 / 100 :: real) = of_int n / 100)
   \<and> \<bar>3333 / 100 - 100 / 3 :: real\<bar> \<le> 1 / 200
   \<and> toFixed 2 (1 / 8) = 13 / 100 \<and> toFixed 2 (- 1 / 8) = - 13 / 100"
proof -
  have "toFixed 2 (100 / 3) = 3333 / 100"
    using reports_round_to_two_decimals [where out = ex_reports] by blast
  then have "(\<exists>n::int. (3333 / 100 :: real) = of_int n / 100)
      \<and> \<bar>3333 / 100 - 100 / 3 :: real\<bar> \<le> 1 / 200"
    using reports_round_to_two_decimals [where out = ex_reports] by blast
  moreover have "map revenue (js_sort by_profit ex_stats) = [100 / 3, 100]"
    by (simp add: ex_stats_def js_sort_def by_profit_def)
  moreover have "map r_revenue ex_reports = [3333 / 100, 100]"
    by (simp add: ex_reports_def)
  moreover have "toFixed 2 (1 / 8) = 13 / 100 \<and> toFixed 2 (- 1 / 8) = - 13 / 100"
    by (simp add: toFixed_def)
  ultimately show ?thesis
    using ex_call ex_aggregate by blast
qed

section \<open>Revenue\<close>

text \<open>
  C8. For every seller the revenue before rounding is the sum of \<open>total_amount\<close> over
  exactly the purchase records whose \<open>seller_id\<close> resolves to that seller, and the
  reported revenue is that sum through \<open>toFixed(2)\<close>. The revenue strategy plays no part
  in it: with any other pair of strategies the reported revenues are the same.
\<close>

theorem revenue_sums_total_amount:
  "(call calcRevenue calcBonus ss ps rs = Returns out \<longrightarrow>
      (\<exists>stats. aggregate calcRevenue ss ps rs = Returns stats
            \<and> (\<forall>i<length ss. revenue (stats ! i)
                   = sum_list (map total_amount (attributed ss i rs))))
       \<and> mset (map (\<lambda>r. (r_seller_id r, r_revenue r)) out)
           = mset (map (\<lambda>i. (s_id (ss ! i),
                              toFixed 2 (sum_list (map total_amount (attributed ss i rs)))))
                    [0..<length ss])
       \<and> (\<forall>calcRevenue' calcBonus' out'.
             call calcRevenue' calcBonus' ss ps rs = Returns out' \<longrightarrow>
             mset (map (\<lambda>r. (r_seller_id r, r_revenue r)) out')
               = mset (map (\<lambda>r. (r_seller_id r, r_revenue r)) out)))
   \<and> (ss \<noteq> [] \<longrightarrow> ps \<noteq> [] \<longrightarrow> rs \<noteq> [] \<longrightarrow> plain_keys rs \<longrightarrow>
        (\<exists>out. call calcRevenue calcBonus ss ps rs = Returns out))"
proof -
  have main: "(\<exists>stats. aggregate calcRevenue ss ps rs = Returns stats
            \<and> (\<forall>i<length ss. revenue (stats ! i)
                   = sum_list (map total_amount (attributed ss i rs))))
       \<and> mset (map (\<lambda>r. (r_seller_id r, r_revenue r)) out)
           = mset (map (\<lambda>i. (s_id (ss ! i),
                              toFixed 2 (sum_list (map total_amount (attributed ss i rs)))))
                    [0..<length ss])
       \<and> (\<forall>calcRevenue' calcBonus' out'.
             call calcRevenue' calcBonus' ss ps rs = Returns out' \<longrightarrow>
             mset (map (\<lambda>r. (r_seller_id r, r_revenue r)) out')
               = mset (map (\<lambda>r. (r_seller_id r, r_revenue r)) out))"
    if ret: "call calcRevenue calcBonus ss ps rs = Returns out"
  proof -
    from call_Returns [OF ret] obtain stats where
      agg: "aggregate calcRevenue ss ps rs = Returns stats"
      by blast
    have "\<forall>i<length ss. revenue (stats ! i) = sum_list (map total_amount (attributed ss i rs))"
      using stats_revenue [OF agg] by blast
    with agg have first: "\<exists>stats. aggregate calcRevenue ss ps rs = Returns stats
        \<and> (\<forall>i<length ss. revenue (stats ! i) = sum_list (map total_amount (attributed ss i rs)))"
      by blast
    have "mset (map (\<lambda>r. (r_seller_id r, r_revenue r)) out')
        = mset (map (\<lambda>r. (r_seller_id r, r_revenue r)) out)"
      if "call calcRevenue' calcBonus' ss ps rs = Returns out'" for calcRevenue' calcBonus' out'
      by (simp only: reports_revenue [OF that] reports_revenue [OF ret])
    with first reports_revenue [OF ret] show ?thesis
      by blast
  qed
  have "\<exists>out. call calcRevenue calcBonus ss ps rs = Returns out"
    if "ss \<noteq> []" "ps \<noteq> []" "rs \<noteq> []" "plain_keys rs"
    using that by (rule call_plain_Returns)
  with main show ?thesis by blast
qed

theorem revenue_sums_total_amount_witness:
  "call calculateSimpleRevenue calculateBonusByProfit ex_sellers ex_products ex_records
     = Returns ex_reports
   \<and> mset (map (\<lambda>r. (r_seller_id r, r_revenue r)) ex_reports)
       = mset (map (\<lambda>i. (s_id (ex_sellers ! i),
                          toFixed 2 (sum_list (map total_amount (attributed ex_sellers i ex_records)))))
                [0..<length ex_sellers])
   \<and> map (\<lambda>r. (r_seller_id r, r_revenue r)) ex_reports = [(''s2'', 3333 / 100), (''s1'', 100)]
   \<and> call no_revenue no_bonus ex_sellers ex_products ex_records = Returns tie_reports
   \<and> mset (map (\<lambda>r. (r_seller_id r, r_revenue r)) tie_reports)
       = mset (map (\<lambda>r. (r_seller_id r, r_revenue r)) ex_reports)
   \<and> map (\<lambda>r. (r_seller_id r, r_revenue r)) tie_reports = [(''s1'', 100), (''s2'', 3333 / 100)]"
proof -
  have "mset (map (\<lambda>r. (r_seller_id r, r_revenue r)) tie_reports)
       = mset (map (\<lambda>r. (r_seller_id r, r_revenue r)) ex_reports)"
    using revenue_sums_total_amount [THEN conjunct1, rule_format, OF ex_call] tie_call by blast
  moreover have "map (\<lambda>r. (r_seller_id r, r_revenue r)) tie_reports
      = [(''s1'', 100), (''s2'', 3333 / 100)]"
    by (simp add: tie_reports_def)
  moreover have "map (\<lambda>r. (r_seller_id r, r_revenue r)) ex_reports
      = [(''s2'', 3333 / 100), (''s1'', 100)]"
    by (simp add: ex_reports_def)
  ultimately show ?thesis
    using revenue_sums_total_amount [THEN conjunct1, rule_format, OF ex_call] ex_call tie_call by blast
qed

section \<open>Sale counts\<close>

text \<open>
  C9. Each output seller's \<open>sales_count\<close> is the number of purchase records whose
  \<open>seller_id\<close> resolves to that seller, one per record whatever the number of its line
  items; so the sum of \<open>sales_count\<close> over the output is the number of purchase records
  whose \<open>seller_id\<close> is the id of an input seller. The reports are compared with the
  input sellers as multisets, the output being a reordering of them.
\<close>

theorem sales_count_counts_records:
  "(call calcRevenue calcBonus ss ps rs = Returns out \<longrightarrow>
      mset (map (\<lambda>r. (r_seller_id r, r_sales_count r)) out)
           = mset (map (\<lambda>i. (s_id (ss ! i), length (attributed ss i rs))) [0..<length ss])
       \<and> sum_list (map r_sales_count out)
           = length (filter (\<lambda>r. seller_id r \<in> s_id ` set ss) rs))
   \<and> (ss \<noteq> [] \<longrightarrow> ps \<noteq> [] \<longrightarrow> rs \<noteq> [] \<longrightarrow> plain_keys rs \<longrightarrow>
        (\<exists>out. call calcRevenue calcBonus ss ps rs = Returns out))"
proof -
  have main: "mset (map (\<lambda>r. (r_seller_id r, r_sales_count r)) out)
           = mset (map (\<lambda>i. (s_id (ss ! i), length (attributed ss i rs))) [0..<length ss])
       \<and> sum_list (map r_sales_count out)
           = length (filter (\<lambda>r. seller_id r \<in> s_id ` set ss) rs)"
    if ret: "call calcRevenue calcBonus ss ps rs = Returns out"
  proof -
    from call_Returns [OF ret] obtain stats where
      agg: "aggregate calcRevenue ss ps rs = Returns stats" and
      out: "out = map report_of (rank calcBonus (js_sort by_profit stats))"
      by blast
    have pos: "map g stats =
        map (\<lambda>i. g (fold (record_effect calcRevenue (product_of ps)) (attributed ss i rs)
                       (init_stat (ss ! i)))) [0..<length ss]" for g :: "seller_stat \<Rightarrow> 'b"
      by (rule stats_by_position [OF agg])
    have "mset (map (\<lambda>r. (r_seller_id r, r_sales_count r)) out)
        = mset (map (\<lambda>s. (stat_id s, sales_count s)) stats)"
      unfolding out by (rule reports_mset) (simp add: report_of_def assign_def)
    also have "map (\<lambda>s. (stat_id s, sales_count s)) stats
        = map (\<lambda>i. (s_id (ss ! i), length (attributed ss i rs))) [0..<length ss]"
      by (simp add: pos fold_record_effect_fields init_stat_def)
    finally have first: "mset (map (\<lambda>r. (r_seller_id r, r_sales_count r)) out)
        = mset (map (\<lambda>i. (s_id (ss ! i), length (attributed ss i rs))) [0..<length ss])" .
    have "mset (map r_sales_count out) = mset (map sales_count stats)"
      unfolding out by (rule reports_mset) (simp add: report_of_def assign_def)
    then have "sum_list (map r_sales_count out) = sum_list (map sales_count stats)"
      by (metis sum_mset_sum_list)
    also have "map sales_count stats = map (\<lambda>i. length (attributed ss i rs)) [0..<length ss]"
      by (simp add: pos fold_record_effect_fields init_stat_def)
    finally have "sum_list (map r_sales_count out)
        = length (filter (\<lambda>r. seller_id r \<in> s_id ` set ss) rs)"
      by (simp add: count_attributed)
    with first show ?thesis by simp
  qed
  have "\<exists>out. call calcRevenue calcBonus ss ps rs = Returns out"
    if "ss \<noteq> []" "ps \<noteq> []" "rs \<noteq> []" "plain_keys rs"
    using that by (rule call_plain_Returns)
  with main show ?thesis by blast
qed

theorem sales_count_counts_records_witness:
  "call calculateSimpleRevenue calculateBonusByProfit ex_sellers ex_products ex_records
     = Returns ex_reports
   \<and> mset (map (\<lambda>r. (r_seller_id r, r_sales_count r)) ex_reports)
       = mset (map (\<lambda>i. (s_id (ex_sellers ! i), length (attributed ex_sellers i ex_records)))
                [0..<length ex_sellers])
   \<and> sum_list (map r_sales_count ex_reports)
       = length (filter (\<lambda>r. seller_id r \<in> s_id ` set ex_sellers) ex_records)
   \<and> sum_list (map r_sales_count ex_reports) = 2"
  using sales_count_counts_records [THEN conjunct1, rule_format, OF ex_call] ex_call
  by (simp add: ex_reports_def)

section \<open>Sellers that share an id, products that share a sku\<close>

text \<open>
  C10. The two indexes keep the last entry of a key: when several input sellers share an
  id, or several products a sku, a purchase record or line item with that id or sku
  resolves to the last such seller or product in input order. Every aggregate is
  accumulated on that last duplicate, and an earlier seller with the same id still has
  its own report, with zero revenue, zero profit, zero \<open>sales_count\<close> and empty
  \<open>top_products\<close>.
\<close>

theorem last_entry_wins:
  "(get_property (sellerIndex (map init_stat ss)) key = Own i \<longleftrightarrow>
      i < length ss \<and> s_id (ss ! i) = key
      \<and> (\<forall>j. i < j \<and> j < length ss \<longrightarrow> s_id (ss ! j) \<noteq> key))
   \<and> (get_property (productIndex ps) key = Own p \<longleftrightarrow>
        (\<exists>i<length ps. ps ! i = p \<and> p_sku p = key
           \<and> (\<forall>j. i < j \<and> j < length ps \<longrightarrow> p_sku (ps ! j) \<noteq> key)))
   \<and> (call calcRevenue calcBonus ss ps rs = Returns out \<longrightarrow>
        (\<exists>stats. aggregate calcRevenue ss ps rs = Returns stats
           \<and> length stats = length ss
           \<and> (\<forall>i<length ss. stats ! i
                  = fold (record_effect calcRevenue (product_of ps)) (attributed ss i rs)
                      (init_stat (ss ! i)))
           \<and> (\<forall>i j. i < j \<and> j < length ss \<and> s_id (ss ! i) = s_id (ss ! j) \<longrightarrow>
                  stats ! i = init_stat (ss ! i)))
        \<and> (\<forall>i j. i < j \<and> j < length ss \<and> s_id (ss ! i) = s_id (ss ! j) \<longrightarrow>
              (\<exists>b. \<lparr>r_seller_id = s_id (ss ! i),
                     r_name = first_name (ss ! i) @ '' '' @ last_name (ss ! i),
                     r_revenue = 0, r_profit = 0, r_sales_count = 0,
                     r_top_products = [], r_bonus = b\<rparr> \<in> set out)))
   \<and> (get_property (sellerIndex (map init_stat ss)) key = Own i \<longrightarrow>
        attributed ss i rs = filter (\<lambda>r. seller_id r = key) rs)
   \<and> (ss \<noteq> [] \<longrightarrow> ps \<noteq> [] \<longrightarrow> rs \<noteq> [] \<longrightarrow> plain_keys rs \<longrightarrow>
        (\<exists>out. call calcRevenue calcBonus ss ps rs = Returns out))"
proof (intro conjI impI)
  show "get_property (sellerIndex (map init_stat ss)) key = Own i \<longleftrightarrow>
      i < length ss \<and> s_id (ss ! i) = key
      \<and> (\<forall>j. i < j \<and> j < length ss \<longrightarrow> s_id (ss ! j) \<noteq> key)"
    by (rule sellerIndex_Own)
next
  show "get_property (productIndex ps) key = Own p \<longleftrightarrow>
        (\<exists>i<length ps. ps ! i = p \<and> p_sku p = key
           \<and> (\<forall>j. i < j \<and> j < length ps \<longrightarrow> p_sku (ps ! j) \<noteq> key))"
    by (rule productIndex_Own)
next
  assume ret: "call calcRevenue calcBonus ss ps rs = Returns out"
  from call_Returns [OF ret] obtain stats where
    agg: "aggregate calcRevenue ss ps rs = Returns stats"
    by blast
  have a: "length stats = length ss"
    by (rule aggregate_Returns(1) [OF agg])
  have b: "\<forall>i<length ss. stats ! i
        = fold (record_effect calcRevenue (product_of ps)) (attributed ss i rs)
            (init_stat (ss ! i))"
    using aggregate_Returns(2) [OF agg] by blast
  have c: "\<forall>i j. i < j \<and> j < length ss \<and> s_id (ss ! i) = s_id (ss ! j) \<longrightarrow>
        stats ! i = init_stat (ss ! i)"
    using earlier_duplicate_untouched [OF agg] by blast
  from agg a b c
  show "\<exists>stats. aggregate calcRevenue ss ps rs = Returns stats
           \<and> length stats = length ss
           \<and> (\<forall>i<length ss. stats ! i
                  = fold (record_effect calcRevenue (product_of ps)) (attributed ss i rs)
                      (init_stat (ss ! i)))
           \<and> (\<forall>i j. i < j \<and> j < length ss \<and> s_id (ss ! i) = s_id (ss ! j) \<longrightarrow>
                  stats ! i = init_stat (ss ! i))"
    by blast
next
  assume ret: "call calcRevenue calcBonus ss ps rs = Returns out"
  show "\<forall>i j. i < j \<and> j < length ss \<and> s_id (ss ! i) = s_id (ss ! j) \<longrightarrow>
              (\<exists>b. \<lparr>r_seller_id = s_id (ss ! i),
                     r_name = first_name (ss ! i) @ '' '' @ last_name (ss ! i),
                     r_revenue = 0, r_profit = 0, r_sales_count = 0,
                     r_top_products = [], r_bonus = b\<rparr> \<in> set out)"
    using untouched_report [OF ret] by blast
next
  assume "get_property (sellerIndex (map init_stat ss)) key = Own i"
  then have "sellerIndex (map init_stat ss) key = Some i"
    by (simp add: get_property_def split: option.splits if_splits)
  then have "resolves ss key i"
    by (simp only: sellerIndex_resolves)
  then show "attributed ss i rs = filter (\<lambda>r. seller_id r = key) rs"
    by (rule attributed_last)
next
  assume "ss \<noteq> []" "ps \<noteq> []" "rs \<noteq> []" "plain_keys rs"
  then show "\<exists>out. call calcRevenue calcBonus ss ps rs = Returns out"
    by (rule call_plain_Returns)
qed

theorem last_entry_wins_witness:
  "get_property (sellerIndex (map init_stat dup_sellers)) ''s1'' = Own 1
   \<and> get_property (productIndex dup_products) ''a'' = Own \<lparr>p_sku = ''a'', purchase_price = 12\<rparr>
   \<and> call calculateSimpleRevenue calculateBonusByProfit dup_sellers dup_products dup_records
       = Returns dup_reports
   \<and> aggregate calculateSimpleRevenue dup_sellers dup_products dup_records = Returns dup_stats
   \<and> (0::nat) < 1 \<and> 1 < length dup_sellers \<and> s_id (dup_sellers ! 0) = s_id (dup_sellers ! 1)
   \<and> dup_stats ! 0 = init_stat (dup_sellers ! 0)
   \<and> (\<exists>b. \<lparr>r_seller_id = ''s1'', r_name = ''Ann Lee'', r_revenue = 0, r_profit = 0,
             r_sales_count = 0, r_top_products = [], r_bonus = b\<rparr> \<in> set dup_reports)
   \<and> attributed dup_sellers 1 dup_records = dup_records"
proof -
  note T = last_entry_wins [where ss = dup_sellers and ps = dup_products and rs = dup_records
      and calcRevenue = calculateSimpleRevenue and calcBonus = calculateBonusByProfit
      and out = dup_reports and key = "''s1''" and i = 1]
  have s: "get_property (sellerIndex (map init_stat dup_sellers)) ''s1'' = Own 1"
    using T by (simp add: dup_sellers_def)
  have p: "get_property (productIndex dup_products) ''a'' = Own \<lparr>p_sku = ''a'', purchase_price = 12\<rparr>"
    using last_entry_wins [where ps = dup_products and key = "''a''"
        and p = "\<lparr>p_sku = ''a'', purchase_price = 12\<rparr>", THEN conjunct2, THEN conjunct1]
    by (auto simp: dup_products_def intro!: exI [of _ 1])
  have d: "(0::nat) < 1" "1 < length dup_sellers" "s_id (dup_sellers ! 0) = s_id (dup_sellers ! 1)"
    by (simp_all add: dup_sellers_def)
  from T dup_call obtain stats where
    st: "aggregate calculateSimpleRevenue dup_sellers dup_products dup_records = Returns stats"
      "\<forall>i j. i < j \<and> j < length dup_sellers \<and> s_id (dup_sellers ! i) = s_id (dup_sellers ! j)
         \<longrightarrow> stats ! i = init_stat (dup_sellers ! i)"
    by blast
  from st(1) dup_aggregate have "stats = dup_stats" by simp
  with st(2) d have z: "dup_stats ! 0 = init_stat (dup_sellers ! 0)"
    by blast
  have "\<exists>b. \<lparr>r_seller_id = s_id (dup_sellers ! 0),
             r_name = first_name (dup_sellers ! 0) @ '' '' @ last_name (dup_sellers ! 0),
             r_revenue = 0, r_profit = 0,
             r_sales_count = 0, r_top_products = [], r_bonus = b\<rparr> \<in> set dup_reports"
    using T dup_call d by blast
  then have r: "\<exists>b. \<lparr>r_seller_id = ''s1'', r_name = ''Ann Lee'', r_revenue = 0, r_profit = 0,
             r_sales_count = 0, r_top_products = [], r_bonus = b\<rparr> \<in> set dup_reports"
    by (simp add: dup_sellers_def)
  have "attributed dup_sellers 1 dup_records = filter (\<lambda>r. seller_id r = ''s1'') dup_records"
    using T s by blast
  then have a: "attributed dup_sellers 1 dup_records = dup_records"
    by (simp add: dup_records_def)
  from s p dup_call dup_aggregate d z r a show ?thesis by blast
qed

end
